theory Spec2Isabelle
  imports Complex_Main "HOL-Library.Word"
begin

section \<open>JavaScript numbers\<close>

text \<open>
  The export loop of \<^verbatim>\<open>handleExport\<close> computes with JavaScript numbers. They are
  modelled as the reals extended by the two infinities and NaN, with the IEEE rules for
  the special values written out. Rounding to binary64 and the sign of zero are not
  modelled: a finite result is the exact real one, and a zero divisor counts as \<open>+0\<close>.
\<close>

datatype jsnum = Fin real | PInf | NInf | NaN

fun jdiv :: "jsnum \<Rightarrow> jsnum \<Rightarrow> jsnum" where
  "jdiv NaN _ = NaN"
| "jdiv _ NaN = NaN"
| "jdiv (Fin a) (Fin b) =
     (if b \<noteq> 0 then Fin (a / b) else if a = 0 then NaN else if 0 < a then PInf else NInf)"
| "jdiv (Fin a) PInf = Fin 0"
| "jdiv (Fin a) NInf = Fin 0"
| "jdiv PInf (Fin b) = (if 0 \<le> b then PInf else NInf)"
| "jdiv NInf (Fin b) = (if 0 \<le> b then NInf else PInf)"
| "jdiv PInf PInf = NaN"
| "jdiv PInf NInf = NaN"
| "jdiv NInf PInf = NaN"
| "jdiv NInf NInf = NaN"

fun jmul :: "jsnum \<Rightarrow> jsnum \<Rightarrow> jsnum" where
  "jmul NaN _ = NaN"
| "jmul _ NaN = NaN"
| "jmul (Fin a) (Fin b) = Fin (a * b)"
| "jmul (Fin a) PInf = (if a = 0 then NaN else if 0 < a then PInf else NInf)"
| "jmul (Fin a) NInf = (if a = 0 then NaN else if 0 < a then NInf else PInf)"
| "jmul PInf (Fin b) = (if b = 0 then NaN else if 0 < b then PInf else NInf)"
| "jmul NInf (Fin b) = (if b = 0 then NaN else if 0 < b then NInf else PInf)"
| "jmul PInf PInf = PInf"
| "jmul PInf NInf = NInf"
| "jmul NInf PInf = NInf"
| "jmul NInf NInf = PInf"

text \<open>\<^verbatim>\<open>Math.sqrt\<close>: NaN below zero (HOL's \<open>sqrt\<close> is odd, so the test is needed).\<close>

fun jsqrt :: "jsnum \<Rightarrow> jsnum" where
  "jsqrt (Fin a) = (if a < 0 then NaN else Fin (sqrt a))"
| "jsqrt PInf = PInf"
| "jsqrt NInf = NaN"
| "jsqrt NaN = NaN"

text \<open>\<^verbatim>\<open>Math.floor\<close>.\<close>

fun jfloor :: "jsnum \<Rightarrow> jsnum" where
  "jfloor (Fin a) = Fin (of_int \<lfloor>a\<rfloor>)"
| "jfloor PInf = PInf"
| "jfloor NInf = NInf"
| "jfloor NaN = NaN"

text \<open>\<^verbatim>\<open>Math.max\<close> of two arguments: NaN as soon as one argument is NaN.\<close>

fun jmax :: "jsnum \<Rightarrow> jsnum \<Rightarrow> jsnum" where
  "jmax NaN _ = NaN"
| "jmax _ NaN = NaN"
| "jmax (Fin a) (Fin b) = Fin (max a b)"
| "jmax PInf _ = PInf"
| "jmax _ PInf = PInf"
| "jmax NInf y = y"
| "jmax x NInf = x"

text \<open>The comparisons \<^verbatim>\<open><\<close> and \<^verbatim>\<open><=\<close>: false as soon as one side is NaN.\<close>

fun jlt :: "jsnum \<Rightarrow> jsnum \<Rightarrow> bool" where
  "jlt NaN _ = False"
| "jlt _ NaN = False"
| "jlt (Fin a) (Fin b) = (a < b)"
| "jlt _ NInf = False"
| "jlt NInf _ = True"
| "jlt PInf _ = False"
| "jlt _ PInf = True"

fun jle :: "jsnum \<Rightarrow> jsnum \<Rightarrow> bool" where
  "jle NaN _ = False"
| "jle _ NaN = False"
| "jle (Fin a) (Fin b) = (a \<le> b)"
| "jle NInf _ = True"
| "jle _ PInf = True"
| "jle _ NInf = False"
| "jle PInf _ = False"

text \<open>
  Assigning a number to \<^verbatim>\<open>canvas.width\<close> converts it to an unsigned 32-bit integer:
  NaN and the infinities become 0, a finite value is truncated towards zero and taken
  modulo \<open>2 ^ 32\<close>.
\<close>

definition trunc :: "real \<Rightarrow> int" where
  "trunc r = (if 0 \<le> r then \<lfloor>r\<rfloor> else \<lceil>r\<rceil>)"

fun to_uint32 :: "jsnum \<Rightarrow> nat" where
  "to_uint32 (Fin a) = nat (trunc a mod 2 ^ 32)"
| "to_uint32 _ = 0"

text \<open>
  An argument of \<^verbatim>\<open>getImageData\<close> is a signed 32-bit integer with its range enforced:
  a finite value is truncated towards zero and must then lie in the range; NaN, the
  infinities and values beyond the range are refused (\<open>None\<close>, a \<^verbatim>\<open>TypeError\<close>).
\<close>

fun to_long :: "jsnum \<Rightarrow> int option" where
  "to_long (Fin a) =
     (let t = trunc a in if t < - (2 ^ 31) \<or> 2 ^ 31 - 1 < t then None else Some t)"
| "to_long _ = None"

section \<open>Pixels, bitmaps and image data\<close>

datatype rgba = RGBA (red: "8 word") (green: "8 word") (blue: "8 word") (alpha: "8 word")

text \<open>The colour as a 24-bit number \<^verbatim>\<open>0xRRGGBB\<close>, the form gif.js takes for \<^verbatim>\<open>transparent\<close>.\<close>

definition rgb_hex :: "rgba \<Rightarrow> nat" where
  "rgb_hex p = unat (red p) * 65536 + unat (green p) * 256 + unat (blue p)"

definition transparent_black :: rgba where
  "transparent_black = RGBA 0 0 0 0"

text \<open>The pixels of a canvas, as an image source and as the snapshot a GIF frame keeps.\<close>

record bitmap =
  bm_width :: nat
  bm_height :: nat
  bm_pixels :: "nat \<Rightarrow> nat \<Rightarrow> rgba"

datatype js_error = NetworkError | ContextError | InvalidStateError | IndexSizeError | TypeError

record image_data =
  id_data :: "8 word list"
  id_width :: nat
  id_height :: nat

text \<open>
  \<^verbatim>\<open>new ImageData(data, sw, sh)\<close>, with the checks of the HTML standard in their order:
  the byte length is a nonzero multiple of four; the pixel count is a multiple of
  \<open>sw\<close> (which fails for \<open>sw = 0\<close>, the count being positive); the height that results
  is \<open>sh\<close>.
\<close>

definition new_ImageData :: "8 word list \<Rightarrow> nat \<Rightarrow> nat \<Rightarrow> js_error + image_data" where
  "new_ImageData dat sw sh =
     (let len = length dat in
      if len = 0 \<or> len mod 4 \<noteq> 0 then Inl InvalidStateError
      else let n = len div 4 in
        if sw = 0 \<or> n mod sw \<noteq> 0 then Inl IndexSizeError
        else if n div sw \<noteq> sh then Inl IndexSizeError
        else Inr \<lparr>id_data = dat, id_width = sw, id_height = sh\<rparr>)"

definition id_pixel :: "image_data \<Rightarrow> nat \<Rightarrow> nat \<Rightarrow> rgba" where
  "id_pixel im x y =
     (let k = 4 * (y * id_width im + x); d = id_data im
      in RGBA (d ! k) (d ! (k + 1)) (d ! (k + 2)) (d ! (k + 3)))"

section \<open>The platform\<close>

text \<open>
  What the browser and gif.js do is not code of the repository. The parts that the
  HTML standard fixes are modelled below; the parts it leaves to the implementation are
  fields of this record, and the theorems hold for every value of them:
  \<^item> \<open>fetch_worker\<close>: whether fetching the worker script succeeds;
  \<^item> \<open>get_context k w h\<close>: whether \<^verbatim>\<open>getContext('2d')\<close> gives a context for the \<open>k\<close>-th
    canvas that is created, of width \<open>w\<close> and height \<open>h\<close>;
  \<^item> \<open>coverage\<close>: the share of the pixel \<open>(i, j)\<close> that the rasteriser takes to lie inside
    a path (a list of subpaths in device coordinates, each closed implicitly);
    0 is outside, 1 is inside, anything between is an anti-aliased edge;
  \<^item> \<open>sample\<close>: the image filter, the colour of an image at a location in its own
    coordinate space;
  \<^item> \<open>composite\<close>: source-over blending of a source colour with a given coverage onto a
    destination, used where the source is partly transparent or partly covers the pixel;
  \<^item> \<open>encode\<close>, \<open>blob_size\<close>: the GIF encoder and the size of its blob in bytes.
\<close>

type_synonym point = "real \<times> real"
type_synonym subpath = "point list"

record gif_options =
  go_workers :: nat
  go_quality :: nat
  go_width :: jsnum
  go_height :: jsnum
  go_transparent :: nat
  go_background :: string

record 'b platform =
  fetch_worker :: bool
  get_context :: "nat \<Rightarrow> nat \<Rightarrow> nat \<Rightarrow> bool"
  coverage :: "subpath list \<Rightarrow> nat \<Rightarrow> nat \<Rightarrow> real"
  sample :: "bitmap \<Rightarrow> real \<Rightarrow> real \<Rightarrow> rgba"
  composite :: "real \<Rightarrow> rgba \<Rightarrow> rgba \<Rightarrow> rgba"
  encode :: "gif_options \<Rightarrow> (bitmap \<times> int) list \<Rightarrow> 'b"
  blob_size :: "'b \<Rightarrow> nat"

section \<open>The 2D canvas context\<close>

text \<open>
  A canvas with its context: the bitmap, and of the drawing state what the program
  touches. The program only ever scales, so the transformation is the pair of scale
  factors. The clipping region is the intersection of the areas of \<open>clip_paths\<close>.
  \<open>saved\<close> is the stack of \<^verbatim>\<open>save()\<close>; it holds the transformation, the clipping
  region and the fill style, not the current path.
\<close>

record context2d =
  cv_width :: nat
  cv_height :: nat
  cv_pixels :: "nat \<Rightarrow> nat \<Rightarrow> rgba"
  tr_x :: real
  tr_y :: real
  clip_paths :: "subpath list list"
  cur_path :: "subpath list"
  fillStyle :: rgba
  saved :: "(real \<times> real \<times> subpath list list \<times> rgba) list"

text \<open>
  A new canvas of a given size, or one whose width or height has just been assigned:
  transparent black, in the default state (identity, no clip, empty path, black fill).
\<close>

definition createCanvas :: "nat \<Rightarrow> nat \<Rightarrow> context2d" where
  "createCanvas w h =
     \<lparr>cv_width = w, cv_height = h, cv_pixels = (\<lambda>i j. transparent_black),
      tr_x = 1, tr_y = 1, clip_paths = [], cur_path = [],
      fillStyle = RGBA 0 0 0 255, saved = []\<rparr>"

definition canvas_image :: "context2d \<Rightarrow> bitmap" where
  "canvas_image c = \<lparr>bm_width = cv_width c, bm_height = cv_height c, bm_pixels = cv_pixels c\<rparr>"

text \<open>
  Painting one pixel, source-over: nothing where the coverage is zero or the source is
  fully transparent, the source itself where it is opaque and covers the pixel, and the
  platform's blend otherwise.
\<close>

definition paint :: "'b platform \<Rightarrow> real \<Rightarrow> rgba \<Rightarrow> rgba \<Rightarrow> rgba" where
  "paint P c src dst =
     (if c \<le> 0 \<or> alpha src = 0 then dst
      else if 1 \<le> c \<and> alpha src = 255 then src
      else composite P (min c 1) src dst)"

text \<open>Clearing one pixel: transparent black where the rectangle covers the pixel.\<close>

definition erase :: "'b platform \<Rightarrow> real \<Rightarrow> rgba \<Rightarrow> rgba" where
  "erase P c dst =
     (if c \<le> 0 then dst
      else if 1 \<le> c then transparent_black
      else composite P (1 - c) dst transparent_black)"

text \<open>
  The share of the pixel \<open>(i, j)\<close>, the unit square at \<open>(i, j)\<close>, that a rectangle with the
  device-space corners \<open>(x0, y0)\<close> and \<open>(x1, y1)\<close> covers.
\<close>

definition span_cov :: "real \<Rightarrow> real \<Rightarrow> nat \<Rightarrow> real" where
  "span_cov a b i = max 0 (min (real i + 1) (max a b) - max (real i) (min a b))"

definition rect_cov :: "real \<Rightarrow> real \<Rightarrow> real \<Rightarrow> real \<Rightarrow> nat \<Rightarrow> nat \<Rightarrow> real" where
  "rect_cov x0 y0 x1 y1 i j = span_cov x0 x1 i * span_cov y0 y1 j"

text \<open>
  The area of a path: subpaths with fewer than two points are ignored when painting,
  and a path with no subpath left has no area.
\<close>

definition path_area :: "'b platform \<Rightarrow> subpath list \<Rightarrow> nat \<Rightarrow> nat \<Rightarrow> real" where
  "path_area P path i j =
     (let ps = filter (\<lambda>s. 2 \<le> length s) path
      in if ps = [] then 0 else coverage P ps i j)"

definition clip_cov :: "'b platform \<Rightarrow> subpath list list \<Rightarrow> nat \<Rightarrow> nat \<Rightarrow> real" where
  "clip_cov P clips i j = prod_list (map (\<lambda>path. path_area P path i j) clips)"

text \<open>\<^verbatim>\<open>putImageData(imageData, 0, 0)\<close>: the raw pixels, whatever the drawing state.\<close>

definition putImageData :: "image_data \<Rightarrow> context2d \<Rightarrow> context2d" where
  "putImageData im c =
     c\<lparr>cv_pixels := (\<lambda>i j. if i < id_width im \<and> j < id_height im
                              then id_pixel im i j else cv_pixels c i j)\<rparr>"

text \<open>
  \<^verbatim>\<open>clearRect\<close> and \<^verbatim>\<open>fillRect\<close>. The program clears with the integers of a frame's
  placement; it fills with its target size, and \<^verbatim>\<open>fillRect\<close> does nothing when an
  argument is not finite.
\<close>

definition clearRect :: "'b platform \<Rightarrow> real \<Rightarrow> real \<Rightarrow> real \<Rightarrow> real \<Rightarrow> context2d \<Rightarrow> context2d" where
  "clearRect P x y w h c =
     c\<lparr>cv_pixels := (\<lambda>i j.
        erase P (rect_cov (x * tr_x c) (y * tr_y c) ((x + w) * tr_x c) ((y + h) * tr_y c) i j
                   * clip_cov P (clip_paths c) i j)
          (cv_pixels c i j))\<rparr>"

fun fillRect :: "'b platform \<Rightarrow> jsnum \<Rightarrow> jsnum \<Rightarrow> jsnum \<Rightarrow> jsnum \<Rightarrow> context2d \<Rightarrow> context2d" where
  "fillRect P (Fin x) (Fin y) (Fin w) (Fin h) c =
     c\<lparr>cv_pixels := (\<lambda>i j.
        paint P (rect_cov (x * tr_x c) (y * tr_y c) ((x + w) * tr_x c) ((y + h) * tr_y c) i j
                   * clip_cov P (clip_paths c) i j)
          (fillStyle c) (cv_pixels c i j))\<rparr>"
| "fillRect P _ _ _ _ c = c"

definition save :: "context2d \<Rightarrow> context2d" where
  "save c = c\<lparr>saved := (tr_x c, tr_y c, clip_paths c, fillStyle c) # saved c\<rparr>"

definition restore :: "context2d \<Rightarrow> context2d" where
  "restore c =
     (case saved c of
        [] \<Rightarrow> c
      | (sx, sy, cl, fs) # rest \<Rightarrow>
          c\<lparr>tr_x := sx, tr_y := sy, clip_paths := cl, fillStyle := fs, saved := rest\<rparr>)"

text \<open>\<^verbatim>\<open>scale(x, y)\<close> does nothing when an argument is infinite or NaN.\<close>

fun scale :: "jsnum \<Rightarrow> jsnum \<Rightarrow> context2d \<Rightarrow> context2d" where
  "scale (Fin x) (Fin y) c = c\<lparr>tr_x := tr_x c * x, tr_y := tr_y c * y\<rparr>"
| "scale _ _ c = c"

definition beginPath :: "context2d \<Rightarrow> context2d" where
  "beginPath c = c\<lparr>cur_path := []\<rparr>"

text \<open>Path points are stored transformed by the transformation current at the call.\<close>

definition moveTo :: "real \<Rightarrow> real \<Rightarrow> context2d \<Rightarrow> context2d" where
  "moveTo x y c = c\<lparr>cur_path := cur_path c @ [[(x * tr_x c, y * tr_y c)]]\<rparr>"

definition lineTo :: "real \<Rightarrow> real \<Rightarrow> context2d \<Rightarrow> context2d" where
  "lineTo x y c =
     (if cur_path c = [] then moveTo x y c
      else c\<lparr>cur_path := butlast (cur_path c) @ [last (cur_path c) @ [(x * tr_x c, y * tr_y c)]]\<rparr>)"

text \<open>
  \<^verbatim>\<open>closePath()\<close> marks the last subpath closed and starts a new subpath at its first
  point. Clipping closes every subpath anyway, so the mark is not kept.
\<close>

definition closePath :: "context2d \<Rightarrow> context2d" where
  "closePath c =
     (if cur_path c = [] then c
      else case last (cur_path c) of
             [] \<Rightarrow> c
           | p # _ \<Rightarrow> c\<lparr>cur_path := cur_path c @ [[p]]\<rparr>)"

definition clip :: "context2d \<Rightarrow> context2d" where
  "clip c = c\<lparr>clip_paths := clip_paths c @ [cur_path c]\<rparr>"

text \<open>
  \<^verbatim>\<open>drawImage(image, dx, dy)\<close> with a canvas as the image: an image of width or height
  zero raises \<^verbatim>\<open>InvalidStateError\<close>. Otherwise the pixel \<open>(i, j)\<close> is painted, as far as the
  image's rectangle and the clipping region cover it, with the image's colour at the
  place that the transformation maps to the centre of the pixel.
\<close>

definition drawImage :: "'b platform \<Rightarrow> bitmap \<Rightarrow> real \<Rightarrow> real \<Rightarrow> context2d \<Rightarrow> js_error + context2d" where
  "drawImage P img dx dy c =
     (if bm_width img = 0 \<or> bm_height img = 0 then Inl InvalidStateError
      else Inr (c\<lparr>cv_pixels := (\<lambda>i j.
        paint P (rect_cov (dx * tr_x c) (dy * tr_y c)
                          ((dx + real (bm_width img)) * tr_x c)
                          ((dy + real (bm_height img)) * tr_y c) i j
                   * clip_cov P (clip_paths c) i j)
          (sample P img ((real i + 1 / 2) / tr_x c - dx) ((real j + 1 / 2) / tr_y c - dy))
          (cv_pixels c i j))\<rparr>))"

text \<open>
  \<^verbatim>\<open>getImageData(sx, sy, sw, sh)\<close>: a \<^verbatim>\<open>TypeError\<close> for an argument that is no 32-bit
  integer, an \<^verbatim>\<open>IndexSizeError\<close> for a width or height of zero; otherwise a copy of the
  rectangle, transparent black where it lies outside the canvas.
\<close>

definition getImageData ::
  "jsnum \<Rightarrow> jsnum \<Rightarrow> jsnum \<Rightarrow> jsnum \<Rightarrow> context2d \<Rightarrow> js_error + bitmap" where
  "getImageData sx sy sw sh c =
     (case (to_long sx, to_long sy, to_long sw, to_long sh) of
        (Some x, Some y, Some w, Some h) \<Rightarrow>
          if w = 0 \<or> h = 0 then Inl IndexSizeError
          else
            let x0 = min x (x + w); y0 = min y (y + h) in
            Inr \<lparr>bm_width = nat \<bar>w\<bar>, bm_height = nat \<bar>h\<bar>,
                 bm_pixels = (\<lambda>i j.
                   let u = x0 + int i; v = y0 + int j in
                   if 0 \<le> u \<and> u < int (cv_width c) \<and> 0 \<le> v \<and> v < int (cv_height c)
                   then cv_pixels c (nat u) (nat v) else transparent_black)\<rparr>
      | _ \<Rightarrow> Inl TypeError)"

text \<open>
  Assigning a colour string to \<^verbatim>\<open>fillStyle\<close>: the form \<^verbatim>\<open>#rrggbb\<close> is parsed (the only form
  the program uses); a string that does not parse leaves the fill style as it is.
\<close>

definition hex_digit :: "char \<Rightarrow> nat option" where
  "hex_digit ch =
     (let n = (of_char ch :: nat) in
      if 48 \<le> n \<and> n \<le> 57 then Some (n - 48)
      else if 65 \<le> n \<and> n \<le> 70 then Some (n - 55)
      else if 97 \<le> n \<and> n \<le> 102 then Some (n - 87)
      else None)"

definition hex_byte :: "char \<Rightarrow> char \<Rightarrow> 8 word option" where
  "hex_byte hi lo =
     (case (hex_digit hi, hex_digit lo) of
        (Some h, Some l) \<Rightarrow> Some (of_nat (16 * h + l))
      | _ \<Rightarrow> None)"

definition parse_color :: "string \<Rightarrow> rgba option" where
  "parse_color s =
     (case s of
        [h, r1, r0, g1, g0, b1, b0] \<Rightarrow>
          (if h = CHR ''#'' then
             (case (hex_byte r1 r0, hex_byte g1 g0, hex_byte b1 b0) of
                (Some r, Some g, Some b) \<Rightarrow> Some (RGBA r g b 255)
              | _ \<Rightarrow> None)
           else None)
      | _ \<Rightarrow> None)"

definition set_fillStyle :: "string \<Rightarrow> context2d \<Rightarrow> context2d" where
  "set_fillStyle s c = (case parse_color s of None \<Rightarrow> c | Some col \<Rightarrow> c\<lparr>fillStyle := col\<rparr>)"

section \<open>The frame processor: \<^verbatim>\<open>processGifRobust\<close>\<close>

record frame_dims =
  dims_width :: nat
  dims_height :: nat
  dims_top :: nat
  dims_left :: nat

text \<open>A frame as gifuct-js decodes it; \<open>disposalType\<close> 2 is the GIF's restore-to-background.\<close>

record raw_frame =
  patch :: "8 word list"
  delay :: int
  dims :: frame_dims
  disposalType :: nat

record gif_state =
  fullCtx :: context2d
  exportCtx :: context2d
  gif_frames :: "(bitmap \<times> int) list"

definition CHROMA_KEY_COLOR_HEX :: nat where
  "CHROMA_KEY_COLOR_HEX = 0x00FF00"

definition CHROMA_KEY_COLOR_STR :: string where
  "CHROMA_KEY_COLOR_STR = ''#00FF00''"

text \<open>
  The inner loop over \<open>j\<close>: the delay of the frame \<open>i\<close> and of the frames skipped after it.
\<close>

function sum_delays :: "raw_frame list \<Rightarrow> nat \<Rightarrow> nat \<Rightarrow> nat \<Rightarrow> int \<Rightarrow> int" where
  "sum_delays rawFrames frameSkip i j d =
     (if j < frameSkip \<and> i + j < length rawFrames
      then sum_delays rawFrames frameSkip i (j + 1) (d + delay (rawFrames ! (i + j)))
      else d)"
  by pat_completeness auto
termination
  by (relation "measure (\<lambda>(rawFrames, frameSkip, i, j, d). frameSkip - j)") auto

text \<open>The path of the polygon: nothing but \<^verbatim>\<open>beginPath()\<close> when there are no points.\<close>

definition polygon_path :: "point list \<Rightarrow> context2d \<Rightarrow> context2d" where
  "polygon_path points c =
     (let c = beginPath c in
      case points of
        [] \<Rightarrow> c
      | p # ps \<Rightarrow> closePath (fold (\<lambda>q. lineTo (fst q) (snd q)) ps (moveTo (fst p) (snd p) c)))"

text \<open>Step 3 of the loop body: the cropped version of the full canvas on the export canvas.\<close>

definition render_frame ::
  "'b platform \<Rightarrow> bitmap \<Rightarrow> point list \<Rightarrow> jsnum \<Rightarrow> jsnum \<Rightarrow> jsnum \<Rightarrow> jsnum \<Rightarrow> context2d
     \<Rightarrow> js_error + context2d" where
  "render_frame P fullCanvas points targetWidth targetHeight scaleX scaleY c =
     (let c = set_fillStyle CHROMA_KEY_COLOR_STR c;
          c = fillRect P (Fin 0) (Fin 0) targetWidth targetHeight c;
          c = save c;
          c = scale scaleX scaleY c;
          c = polygon_path points c;
          c = clip c
      in case drawImage P fullCanvas 0 0 c of
           Inl e \<Rightarrow> Inl e
         | Inr c \<Rightarrow> Inr (restore c))"

text \<open>
  Step 1 of the loop body, done for every frame: the patch goes onto the patch canvas,
  the frame's own rectangle is cleared on the full canvas when the frame's own
  \<open>disposalType\<close> is 2, and the patch canvas is drawn onto the full canvas.
\<close>

definition composite_frame :: "'b platform \<Rightarrow> raw_frame \<Rightarrow> context2d \<Rightarrow> js_error + context2d" where
  "composite_frame P frame full =
     (let d = dims frame in
      case new_ImageData (patch frame) (dims_width d) (dims_height d) of
        Inl e \<Rightarrow> Inl e
      | Inr imageData \<Rightarrow>
          let patchCanvas = putImageData imageData (createCanvas (dims_width d) (dims_height d));
              full = (if disposalType frame = 2
                      then clearRect P (real (dims_left d)) (real (dims_top d))
                             (real (dims_width d)) (real (dims_height d)) full
                      else full)
          in drawImage P (canvas_image patchCanvas)
               (real (dims_left d)) (real (dims_top d)) full)"

text \<open>
  gif.js, \<^verbatim>\<open>addFrame(ctx, {delay, copy: true})\<close> on a GIF whose options hold the width and
  the height: the frame keeps \<^verbatim>\<open>ctx.getImageData(0, 0, width, height)\<close>.
\<close>

definition addFrame ::
  "jsnum \<Rightarrow> jsnum \<Rightarrow> context2d \<Rightarrow> int \<Rightarrow> (bitmap \<times> int) list
     \<Rightarrow> js_error + (bitmap \<times> int) list" where
  "addFrame optWidth optHeight c dl frames =
     (case getImageData (Fin 0) (Fin 0) optWidth optHeight c of
        Inl e \<Rightarrow> Inl e
      | Inr dat \<Rightarrow> Inr (frames @ [(dat, dl)]))"

text \<open>
  The body of the loop over the raw frames, for the index \<open>i < length rawFrames\<close>.
  \<^verbatim>\<open>i % frameSkip\<close> is NaN for \<open>frameSkip = 0\<close>, so that no frame is kept then. The
  progress callback is advisory and left out.
\<close>

definition process_frame ::
  "'b platform \<Rightarrow> raw_frame list \<Rightarrow> point list \<Rightarrow> jsnum \<Rightarrow> jsnum \<Rightarrow> jsnum \<Rightarrow> jsnum \<Rightarrow> nat
     \<Rightarrow> nat \<Rightarrow> gif_state \<Rightarrow> js_error + gif_state" where
  "process_frame P rawFrames points targetWidth targetHeight scaleX scaleY frameSkip i st =
     (let frame = rawFrames ! i in
      case composite_frame P frame (fullCtx st) of
        Inl e \<Rightarrow> Inl e
      | Inr full \<Rightarrow>
          if frameSkip \<noteq> 0 \<and> i mod frameSkip = 0 then
            let dl = sum_delays rawFrames frameSkip i 0 0 in
            case render_frame P (canvas_image full) points targetWidth targetHeight
                   scaleX scaleY (exportCtx st) of
              Inl e \<Rightarrow> Inl e
            | Inr ex \<Rightarrow>
                (case addFrame targetWidth targetHeight ex dl (gif_frames st) of
                   Inl e \<Rightarrow> Inl e
                 | Inr frames \<Rightarrow>
                     Inr (st\<lparr>fullCtx := full, exportCtx := ex, gif_frames := frames\<rparr>))
          else Inr (st\<lparr>fullCtx := full\<rparr>))"

function process_frames ::
  "'b platform \<Rightarrow> raw_frame list \<Rightarrow> point list \<Rightarrow> jsnum \<Rightarrow> jsnum \<Rightarrow> jsnum \<Rightarrow> jsnum \<Rightarrow> nat
     \<Rightarrow> nat \<Rightarrow> gif_state \<Rightarrow> js_error + gif_state" where
  "process_frames P rawFrames points targetWidth targetHeight scaleX scaleY frameSkip i st =
     (if i < length rawFrames then
        case process_frame P rawFrames points targetWidth targetHeight scaleX scaleY
               frameSkip i st of
          Inl e \<Rightarrow> Inl e
        | Inr st' \<Rightarrow>
            process_frames P rawFrames points targetWidth targetHeight scaleX scaleY
              frameSkip (i + 1) st'
      else Inr st)"
  by pat_completeness auto
termination
  by (relation "measure (\<lambda>(P, rawFrames, points, tw, th, sx, sy, frameSkip, i, st).
                           length rawFrames - i)") auto

definition gif_options_of :: "nat \<Rightarrow> jsnum \<Rightarrow> jsnum \<Rightarrow> gif_options" where
  "gif_options_of quality targetWidth targetHeight =
     \<lparr>go_workers = 2, go_quality = quality, go_width = targetWidth, go_height = targetHeight,
      go_transparent = CHROMA_KEY_COLOR_HEX, go_background = ''#000000''\<rparr>"

text \<open>
  \<^verbatim>\<open>processGifRobust\<close>. The three canvases are created in the order full, export, patch;
  a missing context raises \<^verbatim>\<open>Error('Context error')\<close>. The original size comes from the
  decoder as integers; the target size is a number of the export loop.
\<close>

definition processGifRobust ::
  "'b platform \<Rightarrow> raw_frame list \<Rightarrow> point list \<Rightarrow> nat \<Rightarrow> nat \<Rightarrow> jsnum \<Rightarrow> jsnum \<Rightarrow> nat \<Rightarrow> nat
     \<Rightarrow> js_error + 'b" where
  "processGifRobust P rawFrames points originalWidth originalHeight targetWidth targetHeight
     frameSkip quality =
     (if \<not> fetch_worker P then Inl NetworkError
      else if \<not> get_context P 0 originalWidth originalHeight then Inl ContextError
      else if \<not> get_context P 1 (to_uint32 targetWidth) (to_uint32 targetHeight)
        then Inl ContextError
      else if \<not> get_context P 2 originalWidth originalHeight then Inl ContextError
      else
        let scaleX = jdiv targetWidth (Fin (real originalWidth));
            scaleY = jdiv targetHeight (Fin (real originalHeight));
            st = \<lparr>fullCtx = createCanvas originalWidth originalHeight,
                  exportCtx = createCanvas (to_uint32 targetWidth) (to_uint32 targetHeight),
                  gif_frames = []\<rparr>
        in case process_frames P rawFrames points targetWidth targetHeight scaleX scaleY
                  frameSkip 0 st of
             Inl e \<Rightarrow> Inl e
           | Inr st' \<Rightarrow>
               Inr (encode P (gif_options_of quality targetWidth targetHeight) (gif_frames st')))"

section \<open>The export loop: \<^verbatim>\<open>handleExport\<close>\<close>

datatype ToolState = IDLE | DRAGGING | PROCESSING | COMPLETED

text \<open>One call of \<^verbatim>\<open>processGifRobust\<close> by the loop: its arguments and what it gave.\<close>

record 'b attempt =
  at_width :: jsnum
  at_height :: jsnum
  at_quality :: nat
  at_result :: "js_error + 'b"

text \<open>
  The state of the component that the export writes: \<open>processedUrl\<close> is the blob behind
  the object URL (which the download link and the preview show), or \<open>None\<close> for null.
  The status message and the progress are texts for the overlay and left out.
  \<open>attempts\<close> is no variable of the program: it records the calls of
  \<^verbatim>\<open>processGifRobust\<close> in their order.
\<close>

record 'b app_state =
  processedUrl :: "'b option"
  status :: ToolState
  error :: "string option"
  finalSizeMB :: real
  attempts :: "'b attempt list"

definition MAX_ATTEMPTS :: nat where
  "MAX_ATTEMPTS = 5"

definition currentSkip :: nat where
  "currentSkip = 1"

text \<open>
  The \<^verbatim>\<open>while\<close> loop with its \<^verbatim>\<open>try\<close>/\<^verbatim>\<open>catch\<close>; \<open>attempt\<close> is the counter before the
  increment.
\<close>

function export_loop ::
  "'b platform \<Rightarrow> raw_frame list \<Rightarrow> point list \<Rightarrow> nat \<Rightarrow> nat \<Rightarrow> bool \<Rightarrow> jsnum
     \<Rightarrow> jsnum \<Rightarrow> jsnum \<Rightarrow> nat \<Rightarrow> nat \<Rightarrow> 'b app_state \<Rightarrow> 'b app_state" where
  "export_loop P frames points dimsW dimsH limitFileSize maxFileSize
     currentW currentH currentQuality attempt st =
     (if attempt < MAX_ATTEMPTS then
        let attempt = attempt + 1;
            result = processGifRobust P frames points dimsW dimsH currentW currentH
                       currentSkip currentQuality;
            st = st\<lparr>attempts := attempts st @
                   [\<lparr>at_width = currentW, at_height = currentH, at_quality = currentQuality,
                     at_result = result\<rparr>]\<rparr>
        in case result of
             Inl e \<Rightarrow> st\<lparr>error := Some ''Failed to generate GIF.'', status := DRAGGING\<rparr>
           | Inr blob \<Rightarrow>
               let sizeMB = real (blob_size P blob) / (1024 * 1024);
                   st = st\<lparr>finalSizeMB := sizeMB\<rparr>
               in if \<not> limitFileSize \<or> jle (Fin sizeMB) maxFileSize
                  then st\<lparr>processedUrl := Some blob, status := COMPLETED\<rparr>
                  else
                    let ratio = jdiv maxFileSize (Fin sizeMB);
                        safetyRatio = jmul ratio (Fin (9 / 10));
                        scaleFactor = jsqrt safetyRatio;
                        currentW = jmax (Fin 32) (jfloor (jmul currentW scaleFactor));
                        currentH = jmax (Fin 32) (jfloor (jmul currentH scaleFactor));
                        currentQuality = (if attempt = 1 then 15
                                          else if attempt = 2 then 20
                                          else 30)
                    in if jlt currentW (Fin 32) \<or> jlt currentH (Fin 32)
                       then st\<lparr>processedUrl := Some blob, status := COMPLETED\<rparr>
                       else export_loop P frames points dimsW dimsH limitFileSize maxFileSize
                              currentW currentH currentQuality attempt st
      else st\<lparr>error := Some ''Could not compress to target size. Returning best effort.''\<rparr>)"
  by pat_completeness auto
termination
  by (relation "measure (\<lambda>(P, frames, points, dimsW, dimsH, limitFileSize, maxFileSize,
                            currentW, currentH, currentQuality, attempt, st).
                           MAX_ATTEMPTS - attempt)") auto

text \<open>
  \<^verbatim>\<open>handleExport\<close>: nothing without dimensions or frames; otherwise the loop from the
  original dimensions, quality 10 and attempt 0.
\<close>

definition handleExport ::
  "'b platform \<Rightarrow> (nat \<times> nat) option \<Rightarrow> raw_frame list \<Rightarrow> point list \<Rightarrow> bool \<Rightarrow> jsnum
     \<Rightarrow> 'b app_state \<Rightarrow> 'b app_state" where
  "handleExport P gifDims frames points limitFileSize maxFileSize st =
     (case gifDims of
        None \<Rightarrow> st
      | Some (w, h) \<Rightarrow>
          if frames = [] then st
          else export_loop P frames points w h limitFileSize maxFileSize
                 (Fin (real w)) (Fin (real h)) 10 0 (st\<lparr>status := PROCESSING\<rparr>))"

section \<open>Notions for the statements\<close>

text \<open>Names for parts of the body of the export loop, as the source writes them.\<close>

definition log_attempt ::
  "'b platform \<Rightarrow> raw_frame list \<Rightarrow> point list \<Rightarrow> nat \<Rightarrow> nat \<Rightarrow> jsnum \<Rightarrow> jsnum \<Rightarrow> nat
     \<Rightarrow> 'b app_state \<Rightarrow> 'b app_state" where
  "log_attempt P frames points dimsW dimsH w h q st =
     st\<lparr>attempts := attempts st @
        [\<lparr>at_width = w, at_height = h, at_quality = q,
          at_result = processGifRobust P frames points dimsW dimsH w h currentSkip q\<rparr>]\<rparr>"

definition next_dim :: "jsnum \<Rightarrow> real \<Rightarrow> jsnum \<Rightarrow> jsnum" where
  "next_dim maxFileSize sizeMB cur =
     jmax (Fin 32)
       (jfloor (jmul cur (jsqrt (jmul (jdiv maxFileSize (Fin sizeMB)) (Fin (9 / 10))))))"

definition next_quality :: "nat \<Rightarrow> nat" where
  "next_quality attempt = (if attempt = 1 then 15 else if attempt = 2 then 20 else 30)"

text \<open>
  The attempts that the loop makes from the dimensions \<open>w\<close>, \<open>h\<close>, the quality \<open>q\<close> and
  the counter \<open>a\<close>: each attempt but the last gave a blob over the budget, and the next
  one runs with the updated dimensions and quality.
\<close>

fun chain ::
  "'b platform \<Rightarrow> jsnum \<Rightarrow> jsnum \<Rightarrow> jsnum \<Rightarrow> nat \<Rightarrow> nat \<Rightarrow> 'b attempt list \<Rightarrow> bool" where
  "chain P mx w h q a [] = True"
| "chain P mx w h q a (x # xs) =
     (at_width x = w \<and> at_height x = h \<and> at_quality x = q \<and>
      (xs \<noteq> [] \<longrightarrow>
         (\<exists>blob. at_result x = Inr blob \<and>
            \<not> jle (Fin (real (blob_size P blob) / (1024 * 1024))) mx \<and>
            chain P mx (next_dim mx (real (blob_size P blob) / (1024 * 1024)) w)
                       (next_dim mx (real (blob_size P blob) / (1024 * 1024)) h)
                       (next_quality (a + 1)) (a + 1) xs)))"



text \<open>The full canvas after the frames of a list, from a given canvas.\<close>

fun composite_all :: "'b platform \<Rightarrow> raw_frame list \<Rightarrow> context2d \<Rightarrow> js_error + context2d" where
  "composite_all P [] full = Inr full"
| "composite_all P (frame # rest) full =
     (case composite_frame P frame full of
        Inl e \<Rightarrow> Inl e
      | Inr full' \<Rightarrow> composite_all P rest full')"

text \<open>A frame that the decoder can give: a patch of four bytes for each of its pixels.\<close>

definition wf_frame :: "raw_frame \<Rightarrow> bool" where
  "wf_frame f \<longleftrightarrow>
     0 < dims_width (dims f) \<and> 0 < dims_height (dims f) \<and>
     length (patch f) = 4 * dims_width (dims f) * dims_height (dims f)"

text \<open>The substitution colour: opaque green.\<close>

definition chroma_key :: rgba where
  "chroma_key = RGBA 0 255 0 255"

text \<open>
  The polygon in target space, and the share of a pixel that the rasteriser takes to
  lie inside the closed polygon.
\<close>

definition scaled_polygon :: "point list \<Rightarrow> real \<Rightarrow> real \<Rightarrow> point list" where
  "scaled_polygon points sx sy = map (\<lambda>p. (fst p * sx, snd p * sy)) points"

definition polygon_cov :: "'b platform \<Rightarrow> point list \<Rightarrow> nat \<Rightarrow> nat \<Rightarrow> real" where
  "polygon_cov P poly i j = path_area P [poly] i j"

text \<open>
  The masked bitmap in the words of the specification: of the target size; the
  substitution colour outside the scaled polygon; inside it, the full bitmap's colour at
  the place that scales to the pixel's centre, drawn over the substitution colour.
\<close>

definition is_masked ::
  "'b platform \<Rightarrow> bitmap \<Rightarrow> point list \<Rightarrow> nat \<Rightarrow> nat \<Rightarrow> nat \<Rightarrow> nat \<Rightarrow> bitmap \<Rightarrow> bool" where
  "is_masked P full points sourceWidth sourceHeight targetWidth targetHeight out \<longleftrightarrow>
     bm_width out = targetWidth \<and> bm_height out = targetHeight \<and>
     (\<forall>i < targetWidth. \<forall>j < targetHeight.
        let sx = real targetWidth / real sourceWidth;
            sy = real targetHeight / real sourceHeight;
            c = polygon_cov P (scaled_polygon points sx sy) i j;
            src = sample P full ((real i + 1 / 2) / sx) ((real j + 1 / 2) / sy)
        in (c \<le> 0 \<longrightarrow> bm_pixels out i j = chroma_key) \<and>
           (1 \<le> c \<longrightarrow> bm_pixels out i j = paint P 1 src chroma_key))"

text \<open>The state in which \<^verbatim>\<open>processGifRobust\<close> enters its loop over the raw frames.\<close>

definition initial_gif_state :: "nat \<Rightarrow> nat \<Rightarrow> jsnum \<Rightarrow> jsnum \<Rightarrow> gif_state" where
  "initial_gif_state ow oh tw th =
     \<lparr>fullCtx = createCanvas ow oh,
      exportCtx = createCanvas (to_uint32 tw) (to_uint32 th),
      gif_frames = []\<rparr>"

text \<open>
  \<open>masked_of \<dots> idx out\<close>: \<open>out\<close> is the masked bitmap of the full canvas as it is after
  the raw frames up to the index \<open>idx\<close>.
\<close>

definition masked_of ::
  "'b platform \<Rightarrow> raw_frame list \<Rightarrow> point list \<Rightarrow> nat \<Rightarrow> nat \<Rightarrow> nat \<Rightarrow> nat \<Rightarrow> nat \<Rightarrow> bitmap \<Rightarrow> bool" where
  "masked_of P rawFrames points sourceWidth sourceHeight targetWidth targetHeight idx out \<longleftrightarrow>
     (\<exists>full. composite_all P (take (Suc idx) rawFrames) (createCanvas sourceWidth sourceHeight) = Inr full
        \<and> is_masked P (canvas_image full) points sourceWidth sourceHeight targetWidth targetHeight out)"

text \<open>
  The invariant of the loop over the raw frames before the index \<open>i\<close>, for a target size
  in whole pixels: the full canvas holds the frames before \<open>i\<close>; the export context is back
  in its default state; every frame added so far is the masked bitmap of the full canvas
  after some raw frame, the \<open>k\<close>-th after the \<open>k\<close>-th when the stride is 1.
\<close>

definition frames_inv ::
  "'b platform \<Rightarrow> raw_frame list \<Rightarrow> point list \<Rightarrow> nat \<Rightarrow> nat \<Rightarrow> nat \<Rightarrow> nat \<Rightarrow> nat \<Rightarrow> nat \<Rightarrow> gif_state \<Rightarrow> bool" where
  "frames_inv P rawFrames points ow oh n m frameSkip i st \<longleftrightarrow>
     composite_all P (take i rawFrames) (createCanvas ow oh) = Inr (fullCtx st) \<and>
     tr_x (exportCtx st) = 1 \<and> tr_y (exportCtx st) = 1 \<and>
     clip_paths (exportCtx st) = [] \<and> saved (exportCtx st) = [] \<and>
     cv_width (exportCtx st) = n \<and> cv_height (exportCtx st) = m \<and>
     (\<forall>k < length (gif_frames st). \<exists>idx < i.
        (frameSkip = 1 \<longrightarrow> idx = k) \<and>
        masked_of P rawFrames points ow oh n m idx (fst (gif_frames st ! k))) \<and>
     (frameSkip = 1 \<longrightarrow> length (gif_frames st) = i)"

section \<open>A test platform and test inputs\<close>

text \<open>
  A platform to run the model on: every fetch and context succeeds; a pixel is inside a
  path when its centre is inside one of the subpaths by the even-odd rule; images are
  sampled at the nearest pixel; the encoder's blob is its input, of one byte for each
  pixel of each frame.
\<close>

definition edge_crosses :: "point \<Rightarrow> point \<Rightarrow> point \<Rightarrow> bool" where
  "edge_crosses q a b \<longleftrightarrow>
     (snd q < snd a) \<noteq> (snd q < snd b) \<and>
     fst q < (fst b - fst a) * (snd q - snd a) / (snd b - snd a) + fst a"

definition inside_evenodd :: "point \<Rightarrow> subpath \<Rightarrow> bool" where
  "inside_evenodd q poly \<longleftrightarrow>
     odd (length (filter (\<lambda>e. edge_crosses q (fst e) (snd e)) (zip poly (rotate1 poly))))"

definition test_coverage :: "subpath list \<Rightarrow> nat \<Rightarrow> nat \<Rightarrow> real" where
  "test_coverage path i j =
     (if list_ex (inside_evenodd (real i + 1 / 2, real j + 1 / 2)) path then 1 else 0)"

definition test_sample :: "bitmap \<Rightarrow> real \<Rightarrow> real \<Rightarrow> rgba" where
  "test_sample img u v = bm_pixels img (nat \<lfloor>u\<rfloor>) (nat \<lfloor>v\<rfloor>)"

definition test_blob_size :: "gif_options \<times> (bitmap \<times> int) list \<Rightarrow> nat" where
  "test_blob_size blob =
     to_uint32 (go_width (fst blob)) * to_uint32 (go_height (fst blob)) * length (snd blob)"

definition test_platform :: "(gif_options \<times> (bitmap \<times> int) list) platform" where
  "test_platform =
     \<lparr>fetch_worker = True, get_context = (\<lambda>k w h. True), coverage = test_coverage,
      sample = test_sample, composite = (\<lambda>c src dst. src), encode = Pair,
      blob_size = test_blob_size\<rparr>"

text \<open>A frame of opaque pixels of one colour, placed at \<open>(left, top)\<close>.\<close>

definition solid_frame ::
  "8 word \<Rightarrow> 8 word \<Rightarrow> 8 word \<Rightarrow> nat \<Rightarrow> nat \<Rightarrow> nat \<Rightarrow> nat \<Rightarrow> int \<Rightarrow> nat \<Rightarrow> raw_frame" where
  "solid_frame r g b w h l t dl disposal =
     \<lparr>patch = concat (replicate (w * h) [r, g, b, 255]), delay = dl,
      dims = \<lparr>dims_width = w, dims_height = h, dims_top = t, dims_left = l\<rparr>,
      disposalType = disposal\<rparr>"

text \<open>The component before an export: nothing processed, the editor shown.\<close>

definition editing :: "'b app_state" where
  "editing = \<lparr>processedUrl = None, status = DRAGGING, error = None, finalSizeMB = 0,
              attempts = []\<rparr>"

text \<open>The blob that the test platform gives for an attempt of the export loop.\<close>

definition test_blob ::
  "raw_frame list \<Rightarrow> point list \<Rightarrow> nat \<Rightarrow> nat \<Rightarrow> jsnum \<Rightarrow> jsnum \<Rightarrow> nat
     \<Rightarrow> gif_options \<times> (bitmap \<times> int) list" where
  "test_blob frames pts dw dh w h q =
     projr (processGifRobust test_platform frames pts dw dh w h currentSkip q)"

text \<open>The polygon around the whole canvas, and ten white frames of 100 ms.\<close>

definition rect_polygon :: "real \<Rightarrow> real \<Rightarrow> point list" where
  "rect_polygon w h = [(0, 0), (w, 0), (w, h), (0, h)]"

definition white_frames :: "nat \<Rightarrow> nat \<Rightarrow> raw_frame list" where
  "white_frames w h = replicate 10 (solid_frame 255 255 255 w h 0 0 100 0)"

text \<open>
  Two frames on a canvas of two pixels: a red pixel at \<open>(0, 0)\<close> with the disposal
  restore-to-background, then a blue pixel at \<open>(1, 0)\<close> with no disposal.
\<close>

definition red_then_blue :: "raw_frame list" where
  "red_then_blue = [solid_frame 255 0 0 1 1 0 0 100 2, solid_frame 0 0 255 1 1 1 0 100 0]"

text \<open>
  The equations of the three loops unfold without end; they are used one step at a
  time.
\<close>

declare sum_delays.simps [simp del]
declare process_frames.simps [simp del]
declare export_loop.simps [simp del]

section \<open>The canvas operations of one frame\<close>

lemma parse_chroma: "parse_color CHROMA_KEY_COLOR_STR = Some chroma_key"
  by (simp add: parse_color_def CHROMA_KEY_COLOR_STR_def hex_byte_def hex_digit_def chroma_key_def)

lemma rgb_hex_chroma: "rgb_hex chroma_key = CHROMA_KEY_COLOR_HEX"
  by (simp add: rgb_hex_def chroma_key_def CHROMA_KEY_COLOR_HEX_def)

lemma span_cov_full: "i < n \<Longrightarrow> span_cov 0 (real n) i = 1"
  by (simp add: span_cov_def)

lemma rect_cov_full: "i < n \<Longrightarrow> j < m \<Longrightarrow> rect_cov 0 0 (real n) (real m) i j = 1"
  by (simp add: rect_cov_def span_cov_full)

lemma paint_chroma: "paint P 1 chroma_key dst = chroma_key"
  by (simp add: paint_def chroma_key_def)

lemma paint_outside: "c \<le> 0 \<Longrightarrow> paint P c src dst = dst"
  by (simp add: paint_def)

lemma new_ImageData_wf:
  "0 < w \<Longrightarrow> 0 < h \<Longrightarrow> length dat = 4 * w * h \<Longrightarrow>
   new_ImageData dat w h = Inr \<lparr>id_data = dat, id_width = w, id_height = h\<rparr>"
  by (simp add: new_ImageData_def Let_def)

lemma new_ImageData_Inr:
  assumes "new_ImageData dat w h = Inr im"
  shows "0 < w \<and> 0 < h \<and> length dat = 4 * w * h
         \<and> im = \<lparr>id_data = dat, id_width = w, id_height = h\<rparr>"
proof -
  let ?len = "length dat"
  from assms have c: "?len \<noteq> 0" "?len mod 4 = 0" "w \<noteq> 0" "(?len div 4) mod w = 0"
    "(?len div 4) div w = h" "im = \<lparr>id_data = dat, id_width = w, id_height = h\<rparr>"
    by (auto simp add: new_ImageData_def Let_def split: if_splits)
  from c(2) have l4: "?len = 4 * (?len div 4)" by presburger
  from c(4,5) have "?len div 4 = w * h"
    by (metis mult_div_mod_eq add.right_neutral)
  with l4 have len: "?len = 4 * w * h" by simp
  with c(1) have "h \<noteq> 0" by auto
  with c(3,6) len show ?thesis by simp
qed

lemma fold_lineTo:
  "cur_path c = pre @ [s] \<Longrightarrow>
   fold (\<lambda>q. lineTo (fst q) (snd q)) ps c =
     c\<lparr>cur_path := pre @ [s @ map (\<lambda>p. (fst p * tr_x c, snd p * tr_y c)) ps]\<rparr>"
proof (induction ps arbitrary: c s)
  case Nil
  then show ?case by simp
next
  case (Cons p ps)
  let ?c = "lineTo (fst p) (snd p) c"
  have c': "?c = c\<lparr>cur_path := pre @ [s @ [(fst p * tr_x c, snd p * tr_y c)]]\<rparr>"
    using Cons.prems by (simp add: lineTo_def)
  then have "cur_path ?c = pre @ [s @ [(fst p * tr_x c, snd p * tr_y c)]]" by simp
  from Cons.IH [OF this] show ?case by (simp add: c')
qed

lemma polygon_path_eq:
  "polygon_path pts c =
     c\<lparr>cur_path := (case pts of [] \<Rightarrow> []
        | p # ps \<Rightarrow> [scaled_polygon pts (tr_x c) (tr_y c), [(fst p * tr_x c, snd p * tr_y c)]])\<rparr>"
proof (cases pts)
  case Nil
  then show ?thesis by (simp add: polygon_path_def beginPath_def)
next
  case (Cons p ps)
  let ?c = "moveTo (fst p) (snd p) (beginPath c)"
  have "cur_path ?c = [] @ [[(fst p * tr_x c, snd p * tr_y c)]]"
    by (simp add: moveTo_def beginPath_def)
  from fold_lineTo [OF this, of ps] Cons show ?thesis
    by (simp add: polygon_path_def Let_def closePath_def scaled_polygon_def moveTo_def beginPath_def)
qed

lemma path_area_polygon:
  "path_area P (cur_path (polygon_path pts c)) i j
     = polygon_cov P (scaled_polygon pts (tr_x c) (tr_y c)) i j"
  by (cases pts) (auto simp add: polygon_path_eq path_area_def polygon_cov_def scaled_polygon_def Let_def)

lemma render_frame_ok:
  assumes neutral: "tr_x c = 1" "tr_y c = 1" "clip_paths c = []" "saved c = []"
    and size: "cv_width c = n" "cv_height c = m"
    and full: "bm_width full = ow" "bm_height full = oh" "0 < ow" "0 < oh"
  shows "\<exists>c'. render_frame P full pts (Fin (real n)) (Fin (real m))
                 (jdiv (Fin (real n)) (Fin (real ow))) (jdiv (Fin (real m)) (Fin (real oh))) c = Inr c'
           \<and> tr_x c' = 1 \<and> tr_y c' = 1 \<and> clip_paths c' = [] \<and> saved c' = []
           \<and> cv_width c' = n \<and> cv_height c' = m
           \<and> (\<forall>i<n. \<forall>j<m. cv_pixels c' i j =
                 paint P (polygon_cov P (scaled_polygon pts (real n / real ow) (real m / real oh)) i j)
                   (sample P full ((real i + 1 / 2) / (real n / real ow))
                                  ((real j + 1 / 2) / (real m / real oh)))
                   chroma_key)"
proof -
  let ?sx = "real n / real ow" and ?sy = "real m / real oh"
  define c2 where "c2 = fillRect P (Fin 0) (Fin 0) (Fin (real n)) (Fin (real m))
                          (c\<lparr>fillStyle := chroma_key\<rparr>)"
  define c4 where "c4 = scale (Fin ?sx) (Fin ?sy) (save c2)"
  define c6 where "c6 = clip (polygon_path pts c4)"
  have px2: "cv_pixels c2 i j = chroma_key" if "i < n" "j < m" for i j
    using that neutral by (simp add: c2_def rect_cov_full clip_cov_def paint_chroma)
  have st2: "tr_x c2 = 1" "tr_y c2 = 1" "clip_paths c2 = []" "saved c2 = []"
    "fillStyle c2 = chroma_key" "cv_width c2 = n" "cv_height c2 = m"
    using neutral size by (simp_all add: c2_def)
  have st4: "tr_x c4 = ?sx" "tr_y c4 = ?sy" "clip_paths c4 = []"
    "saved c4 = [(1, 1, [], chroma_key)]" "cv_width c4 = n" "cv_height c4 = m"
    "cv_pixels c4 = cv_pixels c2"
    using st2 by (simp_all add: c4_def save_def)
  have st6: "tr_x c6 = ?sx" "tr_y c6 = ?sy"
    "saved c6 = [(1, 1, [], chroma_key)]" "cv_width c6 = n" "cv_height c6 = m"
    "cv_pixels c6 = cv_pixels c2"
    using st4 by (simp_all add: c6_def clip_def polygon_path_eq)
  have clip6: "clip_cov P (clip_paths c6) i j = polygon_cov P (scaled_polygon pts ?sx ?sy) i j"
    for i j
    using st4(1,2,3) path_area_polygon [of P pts c4 i j]
    by (simp add: c6_def clip_def clip_cov_def polygon_path_eq)
  define c7 where "c7 = c6\<lparr>cv_pixels := (\<lambda>i j.
        paint P (rect_cov (0 * tr_x c6) (0 * tr_y c6)
                          ((0 + real (bm_width full)) * tr_x c6)
                          ((0 + real (bm_height full)) * tr_y c6) i j
                   * clip_cov P (clip_paths c6) i j)
          (sample P full ((real i + 1 / 2) / tr_x c6 - 0) ((real j + 1 / 2) / tr_y c6 - 0))
          (cv_pixels c6 i j))\<rparr>"
  have d7: "drawImage P full 0 0 c6 = Inr c7"
    using full by (simp add: drawImage_def c7_def)
  have rf: "render_frame P full pts (Fin (real n)) (Fin (real m))
                 (jdiv (Fin (real n)) (Fin (real ow))) (jdiv (Fin (real m)) (Fin (real oh))) c
             = Inr (restore c7)"
    using full d7
    by (simp add: render_frame_def set_fillStyle_def parse_chroma c2_def c4_def c6_def)
  have r7: "restore c7 = c7\<lparr>tr_x := 1, tr_y := 1, clip_paths := [], fillStyle := chroma_key, saved := []\<rparr>"
    using st6(3) by (simp add: restore_def c7_def)
  have px7: "cv_pixels (restore c7) i j =
                 paint P (polygon_cov P (scaled_polygon pts ?sx ?sy) i j)
                   (sample P full ((real i + 1 / 2) / ?sx) ((real j + 1 / 2) / ?sy))
                   chroma_key" if "i < n" "j < m" for i j
  proof -
    have rect: "rect_cov (0 * tr_x c6) (0 * tr_y c6)
                  ((0 + real (bm_width full)) * tr_x c6)
                  ((0 + real (bm_height full)) * tr_y c6) i j = 1"
      using that full by (simp add: st6(1,2) rect_cov_full)
    have "cv_pixels (restore c7) i j = cv_pixels c7 i j" by (simp add: r7)
    also have "\<dots> = paint P (1 * clip_cov P (clip_paths c6) i j)
          (sample P full ((real i + 1 / 2) / tr_x c6 - 0) ((real j + 1 / 2) / tr_y c6 - 0))
          (cv_pixels c6 i j)"
      using rect by (simp add: c7_def)
    also have "\<dots> = paint P (polygon_cov P (scaled_polygon pts ?sx ?sy) i j)
                   (sample P full ((real i + 1 / 2) / ?sx) ((real j + 1 / 2) / ?sy))
                   chroma_key"
      by (simp add: clip6 st6 px2 [OF that])
    finally show ?thesis .
  qed
  have "tr_x (restore c7) = 1" "tr_y (restore c7) = 1" "clip_paths (restore c7) = []"
    "saved (restore c7) = []" "cv_width (restore c7) = n" "cv_height (restore c7) = m"
    unfolding r7 using st6 by (simp_all add: c7_def)
  with rf px7 show ?thesis by blast
qed

lemma render_frame_Inr:
  "render_frame P full pts tw th sx sy c = Inr c' \<Longrightarrow> 0 < bm_width full \<and> 0 < bm_height full"
  by (auto simp add: render_frame_def drawImage_def Let_def split: if_splits sum.splits)

lemma composite_frame_size:
  "composite_frame P f full = Inr full' \<Longrightarrow>
   cv_width full' = cv_width full \<and> cv_height full' = cv_height full"
  by (auto simp add: composite_frame_def drawImage_def clearRect_def Let_def
           split: if_splits sum.splits)

lemma composite_all_size:
  "composite_all P fs full = Inr full' \<Longrightarrow>
   cv_width full' = cv_width full \<and> cv_height full' = cv_height full"
proof (induction fs arbitrary: full)
  case Nil
  then show ?case by simp
next
  case (Cons f fs)
  then show ?case
    by (auto split: sum.splits dest!: composite_frame_size)
qed

lemma composite_all_snoc:
  "composite_all P (fs @ [f]) full =
     (case composite_all P fs full of Inl e \<Rightarrow> Inl e | Inr full' \<Rightarrow> composite_frame P f full')"
  by (induction fs arbitrary: full) (auto split: sum.splits)

lemma composite_frame_wf:
  "wf_frame f \<Longrightarrow> \<exists>full'. composite_frame P f full = Inr full'"
  by (simp add: composite_frame_def wf_frame_def new_ImageData_wf Let_def drawImage_def
        canvas_image_def putImageData_def createCanvas_def)

lemma paint_full: "1 \<le> c \<Longrightarrow> paint P c src dst = paint P 1 src dst"
  by (simp add: paint_def)

lemma is_masked_pixels:
  assumes "bm_width out = n" "bm_height out = m"
    and px: "\<And>i j. i < n \<Longrightarrow> j < m \<Longrightarrow> bm_pixels out i j =
           paint P (polygon_cov P (scaled_polygon pts (real n / real ow) (real m / real oh)) i j)
             (sample P full ((real i + 1 / 2) / (real n / real ow))
                            ((real j + 1 / 2) / (real m / real oh)))
             chroma_key"
  shows "is_masked P full pts ow oh n m out"
  unfolding is_masked_def Let_def
proof (intro conjI allI impI)
  show "bm_width out = n" "bm_height out = m" by fact+
next
  fix i j assume "i < n" "j < m"
    and "polygon_cov P (scaled_polygon pts (real n / real ow) (real m / real oh)) i j \<le> 0"
  then show "bm_pixels out i j = chroma_key"
    by (simp only: px paint_outside)
next
  fix i j assume "i < n" "j < m"
    and "1 \<le> polygon_cov P (scaled_polygon pts (real n / real ow) (real m / real oh)) i j"
  then show "bm_pixels out i j =
      paint P 1 (sample P full ((real i + 1 / 2) / (real n / real ow))
                            ((real j + 1 / 2) / (real m / real oh))) chroma_key"
    using paint_full by (simp only: px)
qed

lemma to_long_nat: "n < 2 ^ 31 \<Longrightarrow> to_long (Fin (real n)) = Some (int n)"
proof -
  assume "n < 2 ^ 31"
  then have "int n < 2 ^ 31" by (metis of_nat_less_iff of_nat_numeral of_nat_power)
  moreover have "trunc (real n) = int n" by (simp add: trunc_def)
  ultimately show ?thesis by (simp add: Let_def)
qed

lemma to_long_Some: "to_long (Fin (real n)) = Some t \<Longrightarrow> t = int n"
  by (simp add: Let_def trunc_def split: if_splits)

lemma getImageData_nat_Inr:
  assumes "getImageData (Fin 0) (Fin 0) (Fin (real n)) (Fin (real m)) c = Inr dat"
    and "cv_width c = n" "cv_height c = m"
  shows "bm_width dat = n \<and> bm_height dat = m \<and>
         (\<forall>i<n. \<forall>j<m. bm_pixels dat i j = cv_pixels c i j)"
proof -
  have z: "to_long (Fin 0) = Some 0" by (simp add: trunc_def)
  from assms(1) obtain w h where wh: "to_long (Fin (real n)) = Some w"
    "to_long (Fin (real m)) = Some h"
    by (auto simp add: getImageData_def z simp del: to_long.simps split: option.splits)
  from to_long_Some [OF wh(1)] to_long_Some [OF wh(2)]
  have "w = int n" "h = int m" by simp_all
  with assms wh show ?thesis
    by (auto simp add: getImageData_def z Let_def simp del: to_long.simps split: if_splits)
qed

lemma getImageData_nat_ok:
  assumes "0 < n" "n < 2 ^ 31" "0 < m" "m < 2 ^ 31"
  shows "\<exists>dat. getImageData (Fin 0) (Fin 0) (Fin (real n)) (Fin (real m)) c = Inr dat"
proof -
  have z: "to_long (Fin 0) = Some 0" by (simp add: trunc_def)
  show ?thesis
    using assms(1,3)
    by (simp add: getImageData_def z to_long_nat [OF assms(2)] to_long_nat [OF assms(4)]
          del: to_long.simps)
qed

lemma process_frame_inv:
  assumes run: "process_frame P rf pts (Fin (real n)) (Fin (real m))
                  (jdiv (Fin (real n)) (Fin (real ow))) (jdiv (Fin (real m)) (Fin (real oh)))
                  frameSkip i st = Inr st'"
    and i: "i < length rf"
    and inv: "frames_inv P rf pts ow oh n m frameSkip i st"
  shows "frames_inv P rf pts ow oh n m frameSkip (Suc i) st'"
proof -
  from run obtain full where cf: "composite_frame P (rf ! i) (fullCtx st) = Inr full"
    by (auto simp add: process_frame_def Let_def split: sum.splits)
  from inv have ca: "composite_all P (take i rf) (createCanvas ow oh) = Inr (fullCtx st)"
    by (simp add: frames_inv_def)
  have ca': "composite_all P (take (Suc i) rf) (createCanvas ow oh) = Inr full"
    using i ca cf by (simp add: take_Suc_conv_app_nth composite_all_snoc)
  from composite_all_size [OF ca'] have fsz: "cv_width full = ow" "cv_height full = oh"
    by (simp_all add: createCanvas_def)
  show ?thesis
  proof (cases "frameSkip \<noteq> 0 \<and> i mod frameSkip = 0")
    case False
    with run cf have st': "st' = st\<lparr>fullCtx := full\<rparr>"
      by (auto simp add: process_frame_def Let_def)
    from False have ne: "frameSkip \<noteq> 1" by auto
    have "\<exists>idx < Suc i. (frameSkip = 1 \<longrightarrow> idx = k) \<and>
            masked_of P rf pts ow oh n m idx (fst (gif_frames st ! k))"
      if "k < length (gif_frames st)" for k
    proof -
      from inv that obtain idx where "idx < i" "frameSkip = 1 \<longrightarrow> idx = k"
        "masked_of P rf pts ow oh n m idx (fst (gif_frames st ! k))"
        unfolding frames_inv_def by blast
      then show ?thesis by (intro exI [where x = idx]) simp
    qed
    moreover from inv have "tr_x (exportCtx st) = 1" "tr_y (exportCtx st) = 1"
      "clip_paths (exportCtx st) = []" "saved (exportCtx st) = []"
      "cv_width (exportCtx st) = n" "cv_height (exportCtx st) = m"
      by (simp_all add: frames_inv_def)
    ultimately show ?thesis
      unfolding frames_inv_def using ca' ne by (simp add: st')
  next
    case True
    with run cf obtain ex dat where
      rf: "render_frame P (canvas_image full) pts (Fin (real n)) (Fin (real m))
             (jdiv (Fin (real n)) (Fin (real ow))) (jdiv (Fin (real m)) (Fin (real oh)))
             (exportCtx st) = Inr ex"
      and gd: "getImageData (Fin 0) (Fin 0) (Fin (real n)) (Fin (real m)) ex = Inr dat"
      and st': "st' = st\<lparr>fullCtx := full, exportCtx := ex,
                  gif_frames := gif_frames st @ [(dat, sum_delays rf frameSkip i 0 0)]\<rparr>"
      by (auto simp add: process_frame_def addFrame_def Let_def split: sum.splits)
    from render_frame_Inr [OF rf] fsz have pos: "0 < ow" "0 < oh"
      by (simp_all add: canvas_image_def)
    from inv have ne: "tr_x (exportCtx st) = 1" "tr_y (exportCtx st) = 1"
      "clip_paths (exportCtx st) = []" "saved (exportCtx st) = []"
      "cv_width (exportCtx st) = n" "cv_height (exportCtx st) = m"
      by (simp_all add: frames_inv_def)
    have "bm_width (canvas_image full) = ow" "bm_height (canvas_image full) = oh"
      using fsz by (simp_all add: canvas_image_def)
    from render_frame_ok [OF ne this pos, of P pts] rf
    obtain c' where "Inr ex = (Inr c' :: js_error + context2d)" "tr_x c' = 1" "tr_y c' = 1"
      "clip_paths c' = []" "saved c' = []" "cv_width c' = n" "cv_height c' = m"
      "\<forall>i<n. \<forall>j<m. cv_pixels c' i j =
                 paint P (polygon_cov P (scaled_polygon pts (real n / real ow) (real m / real oh)) i j)
                   (sample P (canvas_image full) ((real i + 1 / 2) / (real n / real ow))
                                  ((real j + 1 / 2) / (real m / real oh)))
                   chroma_key"
      by metis
    then have ex: "tr_x ex = 1" "tr_y ex = 1" "clip_paths ex = []" "saved ex = []"
      "cv_width ex = n" "cv_height ex = m"
      and px: "\<forall>i<n. \<forall>j<m. cv_pixels ex i j =
                 paint P (polygon_cov P (scaled_polygon pts (real n / real ow) (real m / real oh)) i j)
                   (sample P (canvas_image full) ((real i + 1 / 2) / (real n / real ow))
                                  ((real j + 1 / 2) / (real m / real oh)))
                   chroma_key"
      by simp_all
    from getImageData_nat_Inr [OF gd ex(5,6)]
    have dat: "bm_width dat = n" "bm_height dat = m"
      "\<forall>i<n. \<forall>j<m. bm_pixels dat i j = cv_pixels ex i j"
      by simp_all
    have "is_masked P (canvas_image full) pts ow oh n m dat"
      by (rule is_masked_pixels) (use dat px in simp_all)
    with ca' have new: "masked_of P rf pts ow oh n m i dat"
      by (auto simp add: masked_of_def)
    have old: "\<exists>idx < Suc i. (frameSkip = 1 \<longrightarrow> idx = k) \<and>
                 masked_of P rf pts ow oh n m idx (fst (gif_frames st' ! k))"
      if k: "k < length (gif_frames st')" for k
    proof (cases "k < length (gif_frames st)")
      case True
      with inv obtain idx where "idx < i" "frameSkip = 1 \<longrightarrow> idx = k"
        "masked_of P rf pts ow oh n m idx (fst (gif_frames st ! k))"
        unfolding frames_inv_def by blast
      moreover have "gif_frames st' ! k = gif_frames st ! k"
        using True by (simp add: st' nth_append)
      ultimately show ?thesis
        by (intro exI [where x = idx]) simp
    next
      case False
      with k have keq: "k = length (gif_frames st)" by (simp add: st')
      from inv have "frameSkip = 1 \<longrightarrow> length (gif_frames st) = i"
        by (simp add: frames_inv_def)
      moreover have "gif_frames st' ! k = (dat, sum_delays rf frameSkip i 0 0)"
        using keq by (simp add: st')
      ultimately show ?thesis using keq new
        by (intro exI [where x = i]) simp
    qed
    from inv have len: "frameSkip = 1 \<longrightarrow> length (gif_frames st') = Suc i"
      by (simp add: frames_inv_def st')
    have "fullCtx st' = full" "exportCtx st' = ex" by (simp_all add: st')
    with ca' ex old len show ?thesis
      unfolding frames_inv_def by simp
  qed
qed

lemma process_frames_end:
  "\<not> i < length rf \<Longrightarrow> process_frames P rf pts tw th sx sy frameSkip i st = Inr st"
  by (subst process_frames.simps) simp

lemma process_frames_step:
  "i < length rf \<Longrightarrow>
   process_frames P rf pts tw th sx sy frameSkip i st =
     (case process_frame P rf pts tw th sx sy frameSkip i st of
        Inl e \<Rightarrow> Inl e
      | Inr st' \<Rightarrow> process_frames P rf pts tw th sx sy frameSkip (i + 1) st')"
  by (subst process_frames.simps) simp

lemma process_frames_inv:
  assumes "process_frames P rf pts (Fin (real n)) (Fin (real m))
             (jdiv (Fin (real n)) (Fin (real ow))) (jdiv (Fin (real m)) (Fin (real oh)))
             frameSkip i st = Inr st'"
    and "i \<le> length rf"
    and "frames_inv P rf pts ow oh n m frameSkip i st"
  shows "frames_inv P rf pts ow oh n m frameSkip (length rf) st'"
  using assms
proof (induction "length rf - i" arbitrary: i st)
  case 0
  then have "i = length rf" by simp
  with 0(2,4) show ?case by (simp add: process_frames_end)
next
  case (Suc d)
  then have lt: "i < length rf" by simp
  with Suc.prems(1) obtain st1 where
    s1: "process_frame P rf pts (Fin (real n)) (Fin (real m))
             (jdiv (Fin (real n)) (Fin (real ow))) (jdiv (Fin (real m)) (Fin (real oh)))
             frameSkip i st = Inr st1"
    and s2: "process_frames P rf pts (Fin (real n)) (Fin (real m))
             (jdiv (Fin (real n)) (Fin (real ow))) (jdiv (Fin (real m)) (Fin (real oh)))
             frameSkip (i + 1) st1 = Inr st'"
    by (simp only: process_frames_step [OF lt] split: sum.splits) auto
  from process_frame_inv [OF s1 lt Suc.prems(3)]
  have inv1: "frames_inv P rf pts ow oh n m frameSkip (i + 1) st1" by simp
  have d: "d = length rf - (i + 1)" using Suc.hyps(2) by simp
  have le: "i + 1 \<le> length rf" using lt by simp
  from Suc.hyps(1) [OF d s2 le inv1] show ?case .
qed

section \<open>The export loop, step by step\<close>

lemma export_loop_done:
  "\<not> attempt < MAX_ATTEMPTS \<Longrightarrow>
   export_loop P fr pts dw dh lfs mx w h q attempt st =
     st\<lparr>error := Some ''Could not compress to target size. Returning best effort.''\<rparr>"
  by (subst export_loop.simps) simp

lemma jlt_jmax_32 [simp]: "\<not> jlt (jmax (Fin 32) x) (Fin 32)"
  by (cases x) auto

lemma export_loop_error:
  "attempt < MAX_ATTEMPTS \<Longrightarrow>
   processGifRobust P fr pts dw dh w h currentSkip q = Inl e \<Longrightarrow>
   export_loop P fr pts dw dh lfs mx w h q attempt st =
     (log_attempt P fr pts dw dh w h q st)\<lparr>error := Some ''Failed to generate GIF.'', status := DRAGGING\<rparr>"
  by (subst export_loop.simps) (simp add: log_attempt_def Let_def)

lemma export_loop_accept:
  "attempt < MAX_ATTEMPTS \<Longrightarrow>
   processGifRobust P fr pts dw dh w h currentSkip q = Inr blob \<Longrightarrow>
   \<not> lfs \<or> jle (Fin (real (blob_size P blob) / (1024 * 1024))) mx \<Longrightarrow>
   export_loop P fr pts dw dh lfs mx w h q attempt st =
     (log_attempt P fr pts dw dh w h q st)\<lparr>finalSizeMB := real (blob_size P blob) / (1024 * 1024),
        processedUrl := Some blob, status := COMPLETED\<rparr>"
  by (subst export_loop.simps) (auto simp add: log_attempt_def Let_def)

lemma export_loop_retry:
  "attempt < MAX_ATTEMPTS \<Longrightarrow>
   processGifRobust P fr pts dw dh w h currentSkip q = Inr blob \<Longrightarrow>
   lfs \<Longrightarrow> \<not> jle (Fin (real (blob_size P blob) / (1024 * 1024))) mx \<Longrightarrow>
   export_loop P fr pts dw dh lfs mx w h q attempt st =
     export_loop P fr pts dw dh lfs mx
       (next_dim mx (real (blob_size P blob) / (1024 * 1024)) w)
       (next_dim mx (real (blob_size P blob) / (1024 * 1024)) h)
       (next_quality (attempt + 1)) (attempt + 1)
       ((log_attempt P fr pts dw dh w h q st)\<lparr>finalSizeMB := real (blob_size P blob) / (1024 * 1024)\<rparr>)"
  by (subst export_loop.simps) (simp add: log_attempt_def Let_def next_dim_def next_quality_def)

lemma export_loop_cases_induct [consumes 0, case_names exhausted failed accepted retried]:
  assumes "\<And>w h q a st. \<not> a < MAX_ATTEMPTS \<Longrightarrow> Q w h q a st"
    and "\<And>w h q a st e. a < MAX_ATTEMPTS \<Longrightarrow>
           processGifRobust P fr pts dw dh w h currentSkip q = Inl e \<Longrightarrow> Q w h q a st"
    and "\<And>w h q a st blob. a < MAX_ATTEMPTS \<Longrightarrow>
           processGifRobust P fr pts dw dh w h currentSkip q = Inr blob \<Longrightarrow>
           \<not> lfs \<or> jle (Fin (real (blob_size P blob) / (1024 * 1024))) mx \<Longrightarrow> Q w h q a st"
    and "\<And>w h q a st blob. a < MAX_ATTEMPTS \<Longrightarrow>
           processGifRobust P fr pts dw dh w h currentSkip q = Inr blob \<Longrightarrow>
           lfs \<Longrightarrow> \<not> jle (Fin (real (blob_size P blob) / (1024 * 1024))) mx \<Longrightarrow>
           Q (next_dim mx (real (blob_size P blob) / (1024 * 1024)) w)
             (next_dim mx (real (blob_size P blob) / (1024 * 1024)) h)
             (next_quality (a + 1)) (a + 1)
             ((log_attempt P fr pts dw dh w h q st)
                \<lparr>finalSizeMB := real (blob_size P blob) / (1024 * 1024)\<rparr>) \<Longrightarrow>
           Q w h q a st"
  shows "Q w h q a st"
proof (induction "MAX_ATTEMPTS - a" arbitrary: w h q a st)
  case 0
  then show ?case using assms(1) by simp
next
  case (Suc n)
  then have lt: "a < MAX_ATTEMPTS" by simp
  show ?case
  proof (cases "processGifRobust P fr pts dw dh w h currentSkip q")
    case (Inl e)
    with lt show ?thesis using assms(2) by blast
  next
    case (Inr blob)
    show ?thesis
    proof (cases "\<not> lfs \<or> jle (Fin (real (blob_size P blob) / (1024 * 1024))) mx")
      case True
      with lt Inr show ?thesis using assms(3) by blast
    next
      case False
      have "n = MAX_ATTEMPTS - (a + 1)" using Suc.hyps(2) by simp
      from Suc.hyps(1)[OF this] lt Inr False show ?thesis using assms(4) by blast
    qed
  qed
qed

lemma export_loop_log:
  "\<exists>new. attempts (export_loop P fr pts dw dh lfs mx w h q a st) = attempts st @ new
        \<and> length new \<le> MAX_ATTEMPTS - a \<and> chain P mx w h q a new"
proof (induction w h q a st rule: export_loop_cases_induct [where P = P and fr = fr and pts = pts
        and dw = dw and dh = dh and lfs = lfs and mx = mx])
  case (exhausted w h q a st)
  then show ?case by (simp add: export_loop_done)
next
  case (failed w h q a st e)
  then show ?case by (simp add: export_loop_error log_attempt_def)
next
  case (accepted w h q a st blob)
  then show ?case by (simp add: export_loop_accept log_attempt_def)
next
  case (retried w h q a st blob)
  then obtain new where new:
    "attempts (export_loop P fr pts dw dh lfs mx w h q a st)
       = attempts st @ \<lparr>at_width = w, at_height = h, at_quality = q,
            at_result = Inr blob\<rparr> # new"
    "length new \<le> MAX_ATTEMPTS - (a + 1)"
    "chain P mx (next_dim mx (real (blob_size P blob) / (1024 * 1024)) w)
                (next_dim mx (real (blob_size P blob) / (1024 * 1024)) h)
                (next_quality (a + 1)) (a + 1) new"
    by (auto simp add: export_loop_retry log_attempt_def)
  show ?case
    apply (rule exI [where x = "\<lparr>at_width = w, at_height = h, at_quality = q,
            at_result = Inr blob\<rparr> # new"])
    using new retried(1,4) by auto
qed

lemma handleExport_log:
  "\<exists>new. attempts (handleExport P d fr pts lfs mx st) = attempts st @ new
        \<and> length new \<le> MAX_ATTEMPTS
        \<and> (\<forall>w h. d = Some (w, h) \<longrightarrow> chain P mx (Fin (real w)) (Fin (real h)) 10 0 new)"
proof (cases d)
  case None
  then show ?thesis by (simp add: handleExport_def)
next
  case (Some wh)
  obtain w h where wh: "wh = (w, h)" by (cases wh)
  show ?thesis
  proof (cases "fr = []")
    case True
    with Some wh show ?thesis by (simp add: handleExport_def)
  next
    case False
    from export_loop_log [of P fr pts w h lfs mx "Fin (real w)" "Fin (real h)" 10 0
           "st\<lparr>status := PROCESSING\<rparr>"]
    show ?thesis using Some wh False by (simp add: handleExport_def)
  qed
qed





lemma chain_quality:
  "chain P mx w h q a new \<Longrightarrow> i < length new \<Longrightarrow>
   at_quality (new ! i) = (if i = 0 then q else if a + i = 1 then 15 else if a + i = 2 then 20 else 30)"
proof (induction new arbitrary: w h q a i)
  case Nil
  then show ?case by simp
next
  case (Cons x xs)
  show ?case
  proof (cases i)
    case 0
    with Cons.prems show ?thesis by simp
  next
    case (Suc k)
    with Cons.prems(2) have k: "k < length xs" by simp
    then have "xs \<noteq> []" by auto
    with Cons.prems(1) obtain blob where
      "chain P mx (next_dim mx (real (blob_size P blob) / (1024 * 1024)) w)
                (next_dim mx (real (blob_size P blob) / (1024 * 1024)) h)
                (next_quality (a + 1)) (a + 1) xs"
      by auto
    from Cons.IH [OF this k] Suc show ?thesis
      by (auto simp add: next_quality_def)
  qed
qed

section \<open>The loop over the raw frames\<close>

lemma render_frame_succeeds:
  "0 < bm_width full \<Longrightarrow> 0 < bm_height full \<Longrightarrow>
   \<exists>c'. render_frame P full pts tw th sx sy c = Inr c'"
  by (simp add: render_frame_def drawImage_def Let_def)

lemma sum_delays_one:
  "i < length rf \<Longrightarrow> sum_delays rf (Suc 0) i 0 0 = delay (rf ! i)"
  by (subst sum_delays.simps, simp, subst sum_delays.simps, simp)

lemma process_frame_succeeds:
  assumes "wf_frame (rf ! i)" "0 < cv_width (fullCtx st)" "0 < cv_height (fullCtx st)"
    and tw: "tw = Fin (real n)" "0 < n" "n < 2 ^ 31"
    and th: "th = Fin (real m)" "0 < m" "m < 2 ^ 31"
  shows "\<exists>st'. process_frame P rf pts tw th sx sy frameSkip i st = Inr st'
           \<and> cv_width (fullCtx st') = cv_width (fullCtx st)
           \<and> cv_height (fullCtx st') = cv_height (fullCtx st)"
proof -
  from composite_frame_wf [OF assms(1)] obtain full where
    cf: "composite_frame P (rf ! i) (fullCtx st) = Inr full" by blast
  from composite_frame_size [OF cf] assms(2,3) have
    sz: "cv_width full = cv_width (fullCtx st)" "cv_height full = cv_height (fullCtx st)"
    and pos: "0 < bm_width (canvas_image full)" "0 < bm_height (canvas_image full)"
    by (simp_all add: canvas_image_def)
  from render_frame_succeeds [OF pos] obtain ex where
    ex: "render_frame P (canvas_image full) pts tw th sx sy (exportCtx st) = Inr ex" by blast
  from getImageData_nat_ok [OF tw(2,3) th(2,3)] obtain dat where
    "getImageData (Fin 0) (Fin 0) tw th ex = Inr dat" unfolding tw(1) th(1) by blast
  with cf sz ex show ?thesis
    by (simp add: process_frame_def addFrame_def Let_def)
qed

lemma process_frames_succeeds:
  assumes "\<forall>f \<in> set rf. wf_frame f" "0 < cv_width (fullCtx st)" "0 < cv_height (fullCtx st)"
    and tw: "tw = Fin (real n)" "0 < n" "n < 2 ^ 31"
    and th: "th = Fin (real m)" "0 < m" "m < 2 ^ 31"
  shows "\<exists>st'. process_frames P rf pts tw th sx sy frameSkip i st = Inr st'"
  using assms(2,3)
proof (induction "length rf - i" arbitrary: i st)
  case 0
  then show ?case by (simp add: process_frames_end)
next
  case (Suc d)
  then have lt: "i < length rf" by simp
  with assms(1) have "wf_frame (rf ! i)" by simp
  from process_frame_succeeds [OF this Suc.prems tw th, where P = P and pts = pts
         and sx = sx and sy = sy and frameSkip = frameSkip]
  obtain st1 where s1: "process_frame P rf pts tw th sx sy frameSkip i st = Inr st1"
    and sz: "0 < cv_width (fullCtx st1)" "0 < cv_height (fullCtx st1)"
    using Suc.prems by auto
  have "d = length rf - (i + 1)" using Suc.hyps(2) by simp
  from Suc.hyps(1) [OF this sz] s1 lt show ?case
    by (simp add: process_frames_step)
qed

lemma process_frame_delay:
  assumes "process_frame P rf pts tw th sx sy 1 i st = Inr st'" "i < length rf"
  shows "map snd (gif_frames st') = map snd (gif_frames st) @ [delay (rf ! i)]"
  using assms
  by (auto simp add: process_frame_def addFrame_def Let_def sum_delays_one split: sum.splits)

lemma process_frames_delays:
  assumes "process_frames P rf pts tw th sx sy 1 i st = Inr st'" "i \<le> length rf"
  shows "map snd (gif_frames st') = map snd (gif_frames st) @ map delay (drop i rf)"
  using assms
proof (induction "length rf - i" arbitrary: i st)
  case 0
  then show ?case by (simp add: process_frames_end)
next
  case (Suc d)
  then have lt: "i < length rf" by simp
  with Suc.prems(1) obtain st1 where
    s1: "process_frame P rf pts tw th sx sy 1 i st = Inr st1"
    and s2: "process_frames P rf pts tw th sx sy 1 (i + 1) st1 = Inr st'"
    by (simp only: process_frames_step [OF lt] split: sum.splits) auto
  have d: "d = length rf - (i + 1)" using Suc.hyps(2) by simp
  have le: "i + 1 \<le> length rf" using lt by simp
  have "drop i rf = rf ! i # drop (Suc i) rf"
    using lt by (simp add: Cons_nth_drop_Suc)
  with Suc.hyps(1) [OF d s2 le] process_frame_delay [OF s1 lt]
  show ?case by simp
qed

lemma processGifRobust_Inr:
  assumes "processGifRobust P rf pts ow oh tw th frameSkip q = Inr blob"
  shows "\<exists>st'. process_frames P rf pts tw th (jdiv tw (Fin (real ow))) (jdiv th (Fin (real oh)))
                   frameSkip 0 (initial_gif_state ow oh tw th) = Inr st'
           \<and> blob = encode P (gif_options_of q tw th) (gif_frames st')"
  using assms
  by (auto simp add: processGifRobust_def Let_def initial_gif_state_def split: if_splits sum.splits)

lemma processGifRobust_ok:
  assumes "fetch_worker P" "get_context P 0 ow oh"
    "get_context P 1 (to_uint32 tw) (to_uint32 th)" "get_context P 2 ow oh"
    and "process_frames P rf pts tw th (jdiv tw (Fin (real ow))) (jdiv th (Fin (real oh)))
           frameSkip 0 (initial_gif_state ow oh tw th) = Inr st'"
  shows "processGifRobust P rf pts ow oh tw th frameSkip q
           = Inr (encode P (gif_options_of q tw th) (gif_frames st'))"
  using assms by (simp add: processGifRobust_def Let_def initial_gif_state_def)

lemma processGifRobust_succeeds:
  assumes "fetch_worker P" "get_context P 0 ow oh"
    "get_context P 1 (to_uint32 tw) (to_uint32 th)" "get_context P 2 ow oh"
    and "\<forall>f \<in> set rf. wf_frame f" "0 < ow" "0 < oh"
    and tw: "tw = Fin (real n)" "0 < n" "n < 2 ^ 31"
    and th: "th = Fin (real m)" "0 < m" "m < 2 ^ 31"
  shows "\<exists>st'. process_frames P rf pts tw th (jdiv tw (Fin (real ow))) (jdiv th (Fin (real oh)))
                   frameSkip 0 (initial_gif_state ow oh tw th) = Inr st'
           \<and> processGifRobust P rf pts ow oh tw th frameSkip q
                = Inr (encode P (gif_options_of q tw th) (gif_frames st'))"
proof -
  have "0 < cv_width (fullCtx (initial_gif_state ow oh tw th))"
    "0 < cv_height (fullCtx (initial_gif_state ow oh tw th))"
    using assms(6,7) by (simp_all add: initial_gif_state_def createCanvas_def)
  from process_frames_succeeds [OF assms(5) this tw th] obtain st' where
    "process_frames P rf pts tw th (jdiv tw (Fin (real ow))) (jdiv th (Fin (real oh)))
       frameSkip 0 (initial_gif_state ow oh tw th) = Inr st'" by blast
  with processGifRobust_ok [OF assms(1-4) this] show ?thesis by blast
qed

lemma to_uint32_nat:
  assumes "n < 2 ^ 32"
  shows "to_uint32 (Fin (real n)) = n"
proof -
  have "trunc (real n) = int n" by (simp add: trunc_def)
  moreover have "int n mod 2 ^ 32 = int n" using assms by simp
  ultimately show ?thesis by simp
qed

lemma frames_inv_initial:
  "n < 2 ^ 32 \<Longrightarrow> m < 2 ^ 32 \<Longrightarrow>
   frames_inv P rf pts ow oh n m frameSkip 0
     (initial_gif_state ow oh (Fin (real n)) (Fin (real m)))"
  using to_uint32_nat [of n] to_uint32_nat [of m]
  by (simp add: frames_inv_def initial_gif_state_def createCanvas_def del: to_uint32.simps)

lemma polygon_cov_empty: "polygon_cov P (scaled_polygon [] sx sy) i j = 0"
  by (simp add: polygon_cov_def scaled_polygon_def path_area_def)

lemma is_masked_empty:
  assumes "is_masked P full [] sw sh tw th out" "i < tw" "j < th"
  shows "bm_pixels out i j = chroma_key"
  using assms by (simp add: is_masked_def Let_def polygon_cov_empty)

lemma is_masked_size:
  "is_masked P full pts sw sh tw th out \<Longrightarrow> bm_width out = tw \<and> bm_height out = th"
  by (simp add: is_masked_def)

lemma processGifRobust_masked:
  assumes run: "processGifRobust P rawFrames points sw sh (Fin (real tw)) (Fin (real th))
              frameSkip quality = Inr blob"
    and size: "tw < 2 ^ 32" "th < 2 ^ 32"
  shows "\<exists>fs. blob = encode P (gif_options_of quality (Fin (real tw)) (Fin (real th))) fs \<and>
          (\<forall>k < length fs. \<exists>idx < length rawFrames.
             (frameSkip = 1 \<longrightarrow> idx = k) \<and>
             masked_of P rawFrames points sw sh tw th idx (fst (fs ! k))) \<and>
          (frameSkip = 1 \<longrightarrow> length fs = length rawFrames)"
proof -
  from processGifRobust_Inr [OF run] obtain st' where
    pf: "process_frames P rawFrames points (Fin (real tw)) (Fin (real th))
           (jdiv (Fin (real tw)) (Fin (real sw))) (jdiv (Fin (real th)) (Fin (real sh)))
           frameSkip 0 (initial_gif_state sw sh (Fin (real tw)) (Fin (real th))) = Inr st'"
    and blob: "blob = encode P (gif_options_of quality (Fin (real tw)) (Fin (real th))) (gif_frames st')"
    by blast
  from process_frames_inv [OF pf _ frames_inv_initial [OF size]]
  have "frames_inv P rawFrames points sw sh tw th frameSkip (length rawFrames) st'" by simp
  with blob show ?thesis
    unfolding frames_inv_def by blast
qed

lemma processGifRobust_one_per_frame:
  assumes "fetch_worker P" "get_context P 0 sw sh"
    "get_context P 1 (to_uint32 targetWidth) (to_uint32 targetHeight)"
    "get_context P 2 sw sh"
    and "\<forall>f \<in> set rawFrames. wf_frame f" "0 < sw" "0 < sh"
    and "targetWidth = Fin (real n)" "0 < n" "n < 2 ^ 31"
    and "targetHeight = Fin (real m)" "0 < m" "m < 2 ^ 31"
  shows "\<exists>fs. processGifRobust P rawFrames points sw sh targetWidth targetHeight currentSkip quality
                 = Inr (encode P (gif_options_of quality targetWidth targetHeight) fs) \<and>
              length fs = length rawFrames \<and> map snd fs = map delay rawFrames"
proof -
  from processGifRobust_succeeds [OF assms] obtain st' where
    run: "processGifRobust P rawFrames points sw sh targetWidth targetHeight currentSkip quality
            = Inr (encode P (gif_options_of quality targetWidth targetHeight) (gif_frames st'))"
    and pf: "process_frames P rawFrames points targetWidth targetHeight
           (jdiv targetWidth (Fin (real sw))) (jdiv targetHeight (Fin (real sh)))
           currentSkip 0 (initial_gif_state sw sh targetWidth targetHeight) = Inr st'"
    by blast
  from process_frames_delays [OF pf [unfolded currentSkip_def]]
  have dl: "map snd (gif_frames st') = map delay rawFrames"
    by (simp add: initial_gif_state_def)
  then have "length (gif_frames st') = length rawFrames"
    by (metis length_map)
  with run dl show ?thesis by blast
qed

lemma length_concat_replicate: "length (concat (replicate k xs)) = k * length xs"
  by (induction k) simp_all

lemma wf_solid_frame: "0 < w \<Longrightarrow> 0 < h \<Longrightarrow> wf_frame (solid_frame r g b w h l t dl disposal)"
  by (simp add: wf_frame_def solid_frame_def length_concat_replicate)

lemma test_platform_simps [simp]:
  "fetch_worker test_platform" "get_context test_platform k w h"
  "encode test_platform = Pair" "blob_size test_platform = test_blob_size"
  "sample test_platform = test_sample" "coverage test_platform = test_coverage"
  by (simp_all add: test_platform_def)

lemma test_process:
  assumes "\<forall>f \<in> set frames. wf_frame f" "0 < dw" "0 < dh"
    and "w = Fin (real n)" "0 < n" "n < 2 ^ 31"
    and "h = Fin (real m)" "0 < m" "m < 2 ^ 31"
  shows "processGifRobust test_platform frames pts dw dh w h currentSkip q
           = Inr (test_blob frames pts dw dh w h q)"
    and "test_blob_size (test_blob frames pts dw dh w h q)
           = to_uint32 w * to_uint32 h * length frames"
proof -
  from processGifRobust_one_per_frame [of test_platform dw dh w h frames n m pts q] assms
  obtain fs where
    "processGifRobust test_platform frames pts dw dh w h currentSkip q
       = Inr (gif_options_of q w h, fs)" "length fs = length frames"
    by auto
  then show "processGifRobust test_platform frames pts dw dh w h currentSkip q
           = Inr (test_blob frames pts dw dh w h q)"
    and "test_blob_size (test_blob frames pts dw dh w h q)
           = to_uint32 w * to_uint32 h * length frames"
    by (simp_all add: test_blob_def test_blob_size_def gif_options_of_def)
qed

lemma next_dim_clamped:
  assumes "0 < mx" "0 < s" "0 \<le> w" "mx / s * (9 / 10) * w\<^sup>2 < 33\<^sup>2"
  shows "next_dim (Fin mx) s (Fin w) = Fin 32"
proof -
  let ?x = "mx / s * (9 / 10)"
  have x: "0 \<le> ?x" using assms(1,2) by simp
  have "(w * sqrt ?x)\<^sup>2 = ?x * w\<^sup>2" using x by (simp add: power_mult_distrib)
  with assms(4) have "(w * sqrt ?x)\<^sup>2 < 33\<^sup>2" by simp
  then have "w * sqrt ?x < 33" by (rule power2_less_imp_less) simp
  then have "\<lfloor>w * sqrt ?x\<rfloor> < 33" by linarith
  then have "max 32 (real_of_int \<lfloor>w * sqrt ?x\<rfloor>) = 32" by simp
  with assms(2) x show ?thesis
    by (simp add: next_dim_def)
qed

lemma test_retry:
  assumes "a < MAX_ATTEMPTS" and "\<forall>f \<in> set frames. wf_frame f" "0 < dw" "0 < dh"
    and "0 < n" "n < 2 ^ 31" "0 < m" "m < 2 ^ 31"
    and "mx * 1048576 < real (n * m * length frames)"
  shows "export_loop test_platform frames pts dw dh True (Fin mx) (Fin (real n)) (Fin (real m)) q a st =
         export_loop test_platform frames pts dw dh True (Fin mx)
           (next_dim (Fin mx) (real (n * m * length frames) / 1048576) (Fin (real n)))
           (next_dim (Fin mx) (real (n * m * length frames) / 1048576) (Fin (real m)))
           (next_quality (a + 1)) (a + 1)
           ((log_attempt test_platform frames pts dw dh (Fin (real n)) (Fin (real m)) q st)
              \<lparr>finalSizeMB := real (n * m * length frames) / 1048576\<rparr>)"
proof -
  note tp = test_process [OF assms(2-4) refl assms(5,6) refl assms(7,8), of pts q]
  have "n < 2 ^ 32" "m < 2 ^ 32" using assms(6,8) by simp_all
  then have sz: "blob_size test_platform (test_blob frames pts dw dh (Fin (real n)) (Fin (real m)) q)
          = n * m * length frames"
    using tp(2) to_uint32_nat [of n] to_uint32_nat [of m]
    by (simp del: to_uint32.simps)
  have over: "\<not> jle (Fin (real (blob_size test_platform
                 (test_blob frames pts dw dh (Fin (real n)) (Fin (real m)) q)) / (1024 * 1024))) (Fin mx)"
    using assms(9) by (simp only: sz) (simp add: field_simps)
  from export_loop_retry [OF assms(1) tp(1) TrueI over, where st = st] show ?thesis
    by (simp only: sz) simp
qed

lemma white_frames_wf: "0 < w \<Longrightarrow> 0 < h \<Longrightarrow> \<forall>f \<in> set (white_frames w h). wf_frame f"
  by (simp add: white_frames_def wf_solid_frame)

lemma white_frames_length [simp]: "length (white_frames w h) = 10"
  by (simp add: white_frames_def)

lemma test_retry_first:
  assumes "0 < n" "0 < m" "n < 2 ^ 31" "m < 2 ^ 31"
    and over: "1048576 / 1000 < real (n * m * 10)"
    and cw: "(1 / 1000) / (real (n * m * 10) / 1048576) * (9 / 10) * (real n)\<^sup>2 < 33\<^sup>2"
    and ch: "(1 / 1000) / (real (n * m * 10) / 1048576) * (9 / 10) * (real m)\<^sup>2 < 33\<^sup>2"
  shows "export_loop test_platform (white_frames n m) pts n m True (Fin (1 / 1000))
           (Fin (real n)) (Fin (real m)) q 0 st =
         export_loop test_platform (white_frames n m) pts n m True (Fin (1 / 1000))
           (Fin 32) (Fin 32) (next_quality 1) 1
           ((log_attempt test_platform (white_frames n m) pts n m (Fin (real n)) (Fin (real m)) q st)
              \<lparr>finalSizeMB := real (n * m * 10) / 1048576\<rparr>)"
proof -
  have pos: "0 < real (n * m * 10) / 1048576" using assms(1,2) by simp
  have a: "(0::nat) < MAX_ATTEMPTS" by (simp add: MAX_ATTEMPTS_def)
  have o: "1 / 1000 * 1048576 < real (n * m * length (white_frames n m))"
    using over by simp
  from test_retry [OF a white_frames_wf [OF assms(1,2)] assms(1,2,1,3,2,4) o, of pts q st]
    next_dim_clamped [OF _ pos _ cw] next_dim_clamped [OF _ pos _ ch]
  show ?thesis by simp
qed

lemma test_retry_floor:
  assumes "a < MAX_ATTEMPTS" "0 < n" "0 < m"
  shows "export_loop test_platform (white_frames n m) pts n m True (Fin (1 / 1000))
           (Fin 32) (Fin 32) q a st =
         export_loop test_platform (white_frames n m) pts n m True (Fin (1 / 1000))
           (Fin 32) (Fin 32) (next_quality (a + 1)) (a + 1)
           ((log_attempt test_platform (white_frames n m) pts n m (Fin 32) (Fin 32) q st)
              \<lparr>finalSizeMB := 10240 / 1048576\<rparr>)"
proof -
  have pos: "(0::real) < 10240 / 1048576" by simp
  have o: "1 / 1000 * 1048576 < real (32 * 32 * length (white_frames n m))" by simp
  have c: "(1 / 1000) / (10240 / 1048576) * (9 / 10) * 32\<^sup>2 < (33::real)\<^sup>2" by simp
  have b: "(0::nat) < 32" "(32::nat) < 2 ^ 31" by simp_all
  from test_retry [OF assms(1) white_frames_wf [OF assms(2,3)] assms(2,3) b b o, of pts q st]
    next_dim_clamped [OF _ pos _ c]
  show ?thesis by simp
qed

lemma test_gave_up:
  assumes "0 < n" "0 < m" "n < 2 ^ 31" "m < 2 ^ 31"
    and over: "1048576 / 1000 < real (n * m * 10)"
    and cw: "(1 / 1000) / (real (n * m * 10) / 1048576) * (9 / 10) * (real n)\<^sup>2 < 33\<^sup>2"
    and ch: "(1 / 1000) / (real (n * m * 10) / 1048576) * (9 / 10) * (real m)\<^sup>2 < 33\<^sup>2"
    and st'_def: "st' = export_loop test_platform (white_frames n m) pts n m True (Fin (1 / 1000))
           (Fin (real n)) (Fin (real m)) 10 0 st"
  shows "processedUrl st' = processedUrl st" "status st' = status st"
    "error st' = Some ''Could not compress to target size. Returning best effort.''"
    "map at_width (attempts st') = map at_width (attempts st) @ [Fin (real n), Fin 32, Fin 32, Fin 32, Fin 32]"
    "map at_height (attempts st') = map at_height (attempts st) @ [Fin (real m), Fin 32, Fin 32, Fin 32, Fin 32]"
    "map at_quality (attempts st') = map at_quality (attempts st) @ [10, 15, 20, 30, 30]"
    "map (\<lambda>a. isl (at_result a)) (attempts st') =
       map (\<lambda>a. isl (at_result a)) (attempts st) @ [False, False, False, False, False]"
proof -
  note wf = white_frames_wf [OF assms(1,2)]
  have eq: "st' = (log_attempt test_platform (white_frames n m) pts n m (Fin 32) (Fin 32) 30
     ((log_attempt test_platform (white_frames n m) pts n m (Fin 32) (Fin 32) 30
       ((log_attempt test_platform (white_frames n m) pts n m (Fin 32) (Fin 32) 20
         ((log_attempt test_platform (white_frames n m) pts n m (Fin 32) (Fin 32) 15
           ((log_attempt test_platform (white_frames n m) pts n m (Fin (real n)) (Fin (real m)) 10 st)
              \<lparr>finalSizeMB := real (n * m * 10) / 1048576\<rparr>))
            \<lparr>finalSizeMB := 10240 / 1048576\<rparr>))
          \<lparr>finalSizeMB := 10240 / 1048576\<rparr>))
        \<lparr>finalSizeMB := 10240 / 1048576\<rparr>))
      \<lparr>finalSizeMB := 10240 / 1048576,
        error := Some ''Could not compress to target size. Returning best effort.''\<rparr>"
    unfolding st'_def
    by (simp add: test_retry_first [OF assms(1-7)] test_retry_floor [OF _ assms(1,2)]
          export_loop_done MAX_ATTEMPTS_def next_quality_def)
  have b: "(0::nat) < 32" "(32::nat) < 2 ^ 31" by simp_all
  note tp = test_process(1) [OF wf assms(1,2) refl assms(1,3) refl assms(2,4)]
    test_process(1) [OF wf assms(1,2) refl b refl b, simplified]
  show "processedUrl st' = processedUrl st" "status st' = status st"
    "error st' = Some ''Could not compress to target size. Returning best effort.''"
    "map at_width (attempts st') = map at_width (attempts st) @ [Fin (real n), Fin 32, Fin 32, Fin 32, Fin 32]"
    "map at_height (attempts st') = map at_height (attempts st) @ [Fin (real m), Fin 32, Fin 32, Fin 32, Fin 32]"
    "map at_quality (attempts st') = map at_quality (attempts st) @ [10, 15, 20, 30, 30]"
    "map (\<lambda>a. isl (at_result a)) (attempts st') =
       map (\<lambda>a. isl (at_result a)) (attempts st) @ [False, False, False, False, False]"
    by (simp_all add: eq log_attempt_def tp)
qed

lemma handleExport_gave_up:
  assumes "0 < n" "0 < m" "n < 2 ^ 31" "m < 2 ^ 31"
    and over: "1048576 / 1000 < real (n * m * 10)"
    and cw: "(1 / 1000) / (real (n * m * 10) / 1048576) * (9 / 10) * (real n)\<^sup>2 < 33\<^sup>2"
    and ch: "(1 / 1000) / (real (n * m * 10) / 1048576) * (9 / 10) * (real m)\<^sup>2 < 33\<^sup>2"
    and st': "st' = handleExport test_platform (Some (n, m)) (white_frames n m) pts True
                     (Fin (1 / 1000)) editing"
  shows "processedUrl st' = None" "status st' = PROCESSING"
    "error st' = Some ''Could not compress to target size. Returning best effort.''"
    "map at_width (attempts st') = [Fin (real n), Fin 32, Fin 32, Fin 32, Fin 32]"
    "map at_height (attempts st') = [Fin (real m), Fin 32, Fin 32, Fin 32, Fin 32]"
    "map at_quality (attempts st') = [10, 15, 20, 30, 30]"
    "map (\<lambda>a. isl (at_result a)) (attempts st') = [False, False, False, False, False]"
proof -
  have ne: "white_frames n m \<noteq> []" by (simp add: white_frames_def)
  have eq: "st' = export_loop test_platform (white_frames n m) pts n m True (Fin (1 / 1000))
           (Fin (real n)) (Fin (real m)) 10 0 (editing\<lparr>status := PROCESSING\<rparr>)"
    using ne by (simp add: st' handleExport_def)
  from test_gave_up [OF assms(1-7) eq]
  show "processedUrl st' = None" "status st' = PROCESSING"
    "error st' = Some ''Could not compress to target size. Returning best effort.''"
    "map at_width (attempts st') = [Fin (real n), Fin 32, Fin 32, Fin 32, Fin 32]"
    "map at_height (attempts st') = [Fin (real m), Fin 32, Fin 32, Fin 32, Fin 32]"
    "map at_quality (attempts st') = [10, 15, 20, 30, 30]"
    "map (\<lambda>a. isl (at_result a)) (attempts st') = [False, False, False, False, False]"
    by (simp_all add: editing_def)
qed

lemma unclamped_below_floor:
  assumes "0 \<le> x" "0 \<le> w" "x * w\<^sup>2 < 32\<^sup>2"
  shows "jlt (jfloor (jmul (Fin w) (jsqrt (Fin x)))) (Fin 32)"
proof -
  have "(w * sqrt x)\<^sup>2 = x * w\<^sup>2" using assms(1) by (simp add: power_mult_distrib)
  with assms(3) have "(w * sqrt x)\<^sup>2 < 32\<^sup>2" by simp
  then have "w * sqrt x < 32" by (rule power2_less_imp_less) simp
  then have "\<lfloor>w * sqrt x\<rfloor> < 32" by linarith
  with assms(1) show ?thesis by simp
qed

section \<open>Two frames with a disposal\<close>

lemma red_then_blue_full:
  "composite_all test_platform red_then_blue (createCanvas 2 1) =
     Inr (projr (composite_all test_platform red_then_blue (createCanvas 2 1)))"
  "cv_pixels (projr (composite_all test_platform red_then_blue (createCanvas 2 1))) 0 0
     = RGBA 255 0 0 255"
  by (simp_all add: red_then_blue_def solid_frame_def composite_frame_def new_ImageData_def
        putImageData_def createCanvas_def clearRect_def drawImage_def canvas_image_def
        paint_def erase_def rect_cov_def span_cov_def clip_cov_def test_sample_def id_pixel_def
        transparent_black_def Let_def)

lemma rect_polygon_covers_origin:
  "polygon_cov test_platform (scaled_polygon (rect_polygon 2 1) (real (2::nat) / real (2::nat))
      (real (1::nat) / real (1::nat))) 0 0 = 1"
  by (simp add: polygon_cov_def path_area_def scaled_polygon_def rect_polygon_def
        test_coverage_def inside_evenodd_def edge_crosses_def)

lemma red_then_blue_emitted:
  "\<not> isl (processGifRobust test_platform red_then_blue (rect_polygon 2 1) 2 1 (Fin 2) (Fin 1)
             currentSkip 10) \<and>
   bm_pixels (fst (snd (projr (processGifRobust test_platform red_then_blue (rect_polygon 2 1)
                                  2 1 (Fin 2) (Fin 1) currentSkip 10)) ! 1)) 0 0
     = RGBA 255 0 0 255"
proof -
  let ?blob = "test_blob red_then_blue (rect_polygon 2 1) 2 1 (Fin (real (2::nat))) (Fin (real (1::nat))) 10"
  have run: "processGifRobust test_platform red_then_blue (rect_polygon 2 1) 2 1
               (Fin (real (2::nat))) (Fin (real (1::nat))) currentSkip 10 = Inr ?blob"
    by (rule test_process(1) [OF _ _ _ refl _ _ refl])
       (simp_all add: red_then_blue_def wf_solid_frame)
  from processGifRobust_masked [OF run] obtain fs where fs:
    "?blob = encode test_platform (gif_options_of 10 (Fin (real (2::nat))) (Fin (real (1::nat)))) fs"
    "\<forall>k < length fs. \<exists>idx < length red_then_blue.
             (currentSkip = 1 \<longrightarrow> idx = k) \<and>
             masked_of test_platform red_then_blue (rect_polygon 2 1) 2 1 2 1 idx (fst (fs ! k))"
    "currentSkip = 1 \<longrightarrow> length fs = length red_then_blue"
    by auto
  from fs(3) have len: "length fs = 2" by (simp add: currentSkip_def red_then_blue_def)
  with fs(2) have "masked_of test_platform red_then_blue (rect_polygon 2 1) 2 1 2 1 1 (fst (fs ! 1))"
    by (auto simp add: currentSkip_def)
  then obtain full where full:
    "composite_all test_platform (take 2 red_then_blue) (createCanvas 2 1) = Inr full"
    "is_masked test_platform (canvas_image full) (rect_polygon 2 1) 2 1 2 1 (fst (fs ! 1))"
    by (auto simp add: masked_of_def numeral_2_eq_2)
  have "take 2 red_then_blue = red_then_blue" by (simp add: red_then_blue_def)
  with full(1) red_then_blue_full have "cv_pixels full 0 0 = RGBA 255 0 0 255" by simp
  moreover from full(2) rect_polygon_covers_origin
  have "bm_pixels (fst (fs ! 1)) 0 0 =
          paint test_platform 1
            (sample test_platform (canvas_image full)
               ((real (0::nat) + 1 / 2) / (real (2::nat) / real (2::nat)))
               ((real (0::nat) + 1 / 2) / (real (1::nat) / real (1::nat)))) chroma_key"
    unfolding is_masked_def Let_def by simp
  ultimately have "bm_pixels (fst (fs ! 1)) 0 0 = RGBA 255 0 0 255"
    by (simp add: paint_def test_sample_def canvas_image_def)
  with run fs(1) show ?thesis by simp
qed

section \<open>The claims\<close>

text \<open>
  Claim C1: during reconstruction, for every frame after the first, the previous
  frame's rectangle is cleared to transparent before the current patch is composited
  when the previous frame's disposal was restore-to-background; disposal is applied one
  step late, keyed to the previous frame.

  The code keys the clearing to the current frame: it clears the current frame's own
  rectangle when the current frame's own \<open>disposalType\<close> is 2, and never looks at the
  previous frame. On a canvas of two pixels, with a red pixel of disposal 2 followed by a
  blue pixel beside it, the red pixel is still on the full canvas after the second frame,
  and in the second frame that is emitted, where the claim has it cleared.
\<close>

theorem disposal_keyed_to_current_frame:
  "map disposalType red_then_blue = [2, 0] \<and>
   \<not> isl (composite_all test_platform red_then_blue (createCanvas 2 1)) \<and>
   cv_pixels (projr (composite_all test_platform red_then_blue (createCanvas 2 1))) 0 0
     = RGBA 255 0 0 255 \<and>
   cv_pixels (projr (composite_all test_platform red_then_blue (createCanvas 2 1))) 1 0
     = RGBA 0 0 255 255 \<and>
   \<not> isl (processGifRobust test_platform red_then_blue (rect_polygon 2 1) 2 1 (Fin 2) (Fin 1)
             currentSkip 10) \<and>
   bm_pixels (fst (snd (projr (processGifRobust test_platform red_then_blue (rect_polygon 2 1)
                                  2 1 (Fin 2) (Fin 1) currentSkip 10)) ! 1)) 0 0
     = RGBA 255 0 0 255"
  using red_then_blue_emitted
  by (simp add: red_then_blue_def solid_frame_def composite_frame_def new_ImageData_def
        putImageData_def createCanvas_def clearRect_def drawImage_def canvas_image_def
        paint_def erase_def rect_cov_def span_cov_def clip_cov_def test_sample_def id_pixel_def
        transparent_black_def Let_def)

text \<open>
  Claim C2: for a target size of \<open>tw\<close> by \<open>th\<close> pixels, every frame that
  \<^verbatim>\<open>processGifRobust\<close> hands to the encoder has exactly that size; each of its pixels
  outside the polygon, scaled by \<open>tw / sw\<close> and \<open>th / sh\<close>, is the substitution colour; each
  pixel inside is the colour of the full canvas, as it is after one of the raw frames, at
  the place that scales to the pixel, drawn over the substitution colour.
\<close>

theorem masked_output:
  assumes "processGifRobust P rawFrames points sw sh (Fin (real tw)) (Fin (real th))
              frameSkip quality = Inr blob"
    and "tw < 2 ^ 32" "th < 2 ^ 32"
  shows "\<exists>fs. blob = encode P (gif_options_of quality (Fin (real tw)) (Fin (real th))) fs \<and>
          (\<forall>k < length fs. \<exists>idx < length rawFrames. \<exists>full.
             composite_all P (take (Suc idx) rawFrames) (createCanvas sw sh) = Inr full \<and>
             is_masked P (canvas_image full) points sw sh tw th (fst (fs ! k)))"
  using processGifRobust_masked [OF assms] unfolding masked_of_def by blast

theorem masked_output_witness:
  "processGifRobust test_platform [solid_frame 255 0 0 2 2 0 0 100 0] (rect_polygon 2 2) 2 2
      (Fin (real (2::nat))) (Fin (real (2::nat))) currentSkip 10
     = Inr (test_blob [solid_frame 255 0 0 2 2 0 0 100 0] (rect_polygon 2 2) 2 2
              (Fin (real (2::nat))) (Fin (real (2::nat))) 10) \<and>
   (\<exists>fs. test_blob [solid_frame 255 0 0 2 2 0 0 100 0] (rect_polygon 2 2) 2 2
            (Fin (real (2::nat))) (Fin (real (2::nat))) 10
          = encode test_platform (gif_options_of 10 (Fin (real (2::nat))) (Fin (real (2::nat)))) fs \<and>
      (\<forall>k < length fs. \<exists>idx < length [solid_frame 255 0 0 2 2 0 0 100 0]. \<exists>full.
         composite_all test_platform (take (Suc idx) [solid_frame 255 0 0 2 2 0 0 100 0])
           (createCanvas 2 2) = Inr full \<and>
         is_masked test_platform (canvas_image full) (rect_polygon 2 2) 2 2 2 2 (fst (fs ! k))))"
proof -
  have run: "processGifRobust test_platform [solid_frame 255 0 0 2 2 0 0 100 0] (rect_polygon 2 2)
      2 2 (Fin (real (2::nat))) (Fin (real (2::nat))) currentSkip 10
     = Inr (test_blob [solid_frame 255 0 0 2 2 0 0 100 0] (rect_polygon 2 2) 2 2
              (Fin (real (2::nat))) (Fin (real (2::nat))) 10)"
    by (rule test_process(1) [OF _ _ _ refl _ _ refl]) (simp_all add: wf_solid_frame)
  have size: "(2::nat) < 2 ^ 32" by simp
  from masked_output [OF run size size] run show ?thesis by blast
qed

text \<open>
  Claim C3: when the export loop has used up its attempts without meeting the budget,
  the last blob is still delivered to the caller, with a warning; an over-budget result
  never ends in no output.

  The code sets the warning after the loop and delivers nothing: \<open>processedUrl\<close> and
  \<open>status\<close> are written only on the two early returns. With ten frames of 200 by 150
  pixels and a budget of 0.001 MB on the test platform, all five attempts give a blob,
  the warning is set, and the component is left with no blob and still processing.
\<close>

theorem gave_up_delivers_no_blob:
  "let st = handleExport test_platform (Some (200, 150)) (white_frames 200 150)
              (rect_polygon 200 150) True (Fin (1 / 1000)) editing
   in map at_width (attempts st) = [Fin 200, Fin 32, Fin 32, Fin 32, Fin 32] \<and>
      map at_height (attempts st) = [Fin 150, Fin 32, Fin 32, Fin 32, Fin 32] \<and>
      map (\<lambda>a. isl (at_result a)) (attempts st) = [False, False, False, False, False] \<and>
      error st = Some ''Could not compress to target size. Returning best effort.'' \<and>
      processedUrl st = None \<and> status st = PROCESSING"
  using handleExport_gave_up [of 200 150 _ "rect_polygon 200 150", OF _ _ _ _ _ _ _ refl]
  by (simp add: Let_def)

text \<open>
  Claim C4: when the update would bring a dimension below 32, the loop accepts the blob
  it has just produced, at once, and makes no further attempt.

  In the code the update clamps each dimension to at least 32 before the test
  \<^verbatim>\<open>currentW < 32 || currentH < 32\<close>, so the test is never true and the loop goes on at the
  clamped size. With ten frames of 40 by 40 pixels and a budget of 0.001 MB, the
  unclamped width after the first attempt is below 32, and four more attempts follow at
  32 by 32.
\<close>

theorem floor_break_never_taken:
  "let st = handleExport test_platform (Some (40, 40)) (white_frames 40 40)
              (rect_polygon 40 40) True (Fin (1 / 1000)) editing
   in jlt (jfloor (jmul (Fin 40) (jsqrt (jmul (jdiv (Fin (1 / 1000)) (Fin (16000 / (1024 * 1024))))
                                              (Fin (9 / 10))))))
          (Fin 32) \<and>
      map at_width (attempts st) = [Fin 40, Fin 32, Fin 32, Fin 32, Fin 32] \<and>
      map at_height (attempts st) = [Fin 40, Fin 32, Fin 32, Fin 32, Fin 32] \<and>
      map (\<lambda>a. isl (at_result a)) (attempts st) = [False, False, False, False, False] \<and>
      processedUrl st = None \<and> status st = PROCESSING"
proof -
  have "jlt (jfloor (jmul (Fin 40) (jsqrt (Fin ((1 / 1000) / (16000 / 1048576) * (9 / 10))))))
          (Fin 32)"
    by (rule unclamped_below_floor) simp_all
  then show ?thesis
    using handleExport_gave_up [of 40 40 _ "rect_polygon 40 40", OF _ _ _ _ _ _ _ refl]
    by (simp add: Let_def)
qed



text \<open>
  Claim C6: for every polygon with fewer than 3 points, the core pipeline rejects the
  polygon as degenerate instead of producing output.

  The code has no check of the polygon at all (the editor keeps three points). The claim
  fails for a polygon of two points, which gives a blob.
\<close>

theorem degenerate_polygon_counterexample:
  "length [(0, 0), (2, 2) :: point] < 3 \<and>
   \<not> isl (processGifRobust test_platform [solid_frame 255 0 0 2 2 0 0 100 0] [(0, 0), (2, 2)]
            2 2 (Fin 2) (Fin 2) currentSkip 10)"
proof -
  have "processGifRobust test_platform [solid_frame 255 0 0 2 2 0 0 100 0] [(0, 0), (2, 2)]
            2 2 (Fin (real (2::nat))) (Fin (real (2::nat))) currentSkip 10
        = Inr (test_blob [solid_frame 255 0 0 2 2 0 0 100 0] [(0, 0), (2, 2)]
            2 2 (Fin (real (2::nat))) (Fin (real (2::nat))) 10)"
    by (rule test_process(1) [OF _ _ _ refl _ _ refl]) (simp_all add: wf_solid_frame)
  then show ?thesis by simp
qed

text \<open>
  Claim C6, as amended: a polygon with fewer than 3 points is not rejected. Where the
  platform gives the worker script and the contexts, the frames are well formed and the
  source size is positive, the pipeline returns the encoder's blob, with one frame for
  each raw frame, as for any other polygon.
\<close>

theorem degenerate_polygon_not_rejected:
  assumes "length points < 3"
    and "fetch_worker P" "get_context P 0 sw sh"
    "get_context P 1 (to_uint32 (Fin (real tw))) (to_uint32 (Fin (real th)))"
    "get_context P 2 sw sh"
    and "\<forall>f \<in> set rawFrames. wf_frame f" "0 < sw" "0 < sh"
    and "0 < tw" "tw < 2 ^ 31" "0 < th" "th < 2 ^ 31"
  shows "\<exists>fs. processGifRobust P rawFrames points sw sh (Fin (real tw)) (Fin (real th))
                 currentSkip quality
                 = Inr (encode P (gif_options_of quality (Fin (real tw)) (Fin (real th))) fs) \<and>
              length fs = length rawFrames"
proof -
  from processGifRobust_succeeds [OF assms(2-8) refl assms(9,10) refl assms(11,12)]
  obtain st' where
    run: "processGifRobust P rawFrames points sw sh (Fin (real tw)) (Fin (real th))
            currentSkip quality
            = Inr (encode P (gif_options_of quality (Fin (real tw)) (Fin (real th)))
                     (gif_frames st'))"
    and pf: "process_frames P rawFrames points (Fin (real tw)) (Fin (real th))
           (jdiv (Fin (real tw)) (Fin (real sw))) (jdiv (Fin (real th)) (Fin (real sh)))
           currentSkip 0 (initial_gif_state sw sh (Fin (real tw)) (Fin (real th))) = Inr st'"
    by blast
  from process_frames_delays [OF pf [unfolded currentSkip_def]]
  have "map snd (gif_frames st') = map delay rawFrames"
    by (simp add: initial_gif_state_def)
  then have "length (gif_frames st') = length rawFrames"
    by (metis length_map)
  with run show ?thesis by blast
qed

theorem degenerate_polygon_not_rejected_witness:
  "length [(0, 0), (2, 2) :: point] < 3 \<and>
   fetch_worker test_platform \<and> get_context test_platform 0 2 2 \<and>
   get_context test_platform 1 (to_uint32 (Fin (real (2::nat)))) (to_uint32 (Fin (real (2::nat)))) \<and>
   get_context test_platform 2 2 2 \<and>
   wf_frame (solid_frame 255 0 0 2 2 0 0 100 0) \<and>
   (\<exists>fs. processGifRobust test_platform [solid_frame 255 0 0 2 2 0 0 100 0] [(0, 0), (2, 2)]
            2 2 (Fin (real (2::nat))) (Fin (real (2::nat))) currentSkip 10
          = Inr (encode test_platform
                   (gif_options_of 10 (Fin (real (2::nat))) (Fin (real (2::nat)))) fs) \<and>
        length fs = length [solid_frame 255 0 0 2 2 0 0 100 0])"
proof -
  have len: "length [(0, 0), (2, 2) :: point] < 3" by simp
  have wf: "\<forall>f \<in> set [solid_frame 255 0 0 2 2 0 0 100 0]. wf_frame f"
    by (simp add: wf_solid_frame)
  have pos: "(0::nat) < 2" and size: "(2::nat) < 2 ^ 31" by simp_all
  have tp: "fetch_worker test_platform" "get_context test_platform 0 2 2"
    "get_context test_platform 1 (to_uint32 (Fin (real (2::nat)))) (to_uint32 (Fin (real (2::nat))))"
    "get_context test_platform 2 2 2"
    by (simp_all del: to_uint32.simps)
  from degenerate_polygon_not_rejected [OF len tp wf pos pos pos size pos size, of 10] wf tp
  show ?thesis by (simp del: to_uint32.simps)
qed

text \<open>
  Claim C7: with the stride 1 that the export always passes, exactly one frame is
  emitted for each raw frame, in the order of the raw frames, each with the delay of its
  raw frame; none is dropped. For a target size in whole pixels, the \<open>k\<close>-th emitted
  bitmap is the masked full canvas after the \<open>k\<close>-th raw frame.
\<close>

theorem one_frame_per_raw_frame:
  assumes "processGifRobust P rawFrames points sw sh targetWidth targetHeight currentSkip quality
             = Inr blob"
  shows "\<exists>fs. blob = encode P (gif_options_of quality targetWidth targetHeight) fs \<and>
          length fs = length rawFrames \<and> map snd fs = map delay rawFrames \<and>
          (\<forall>tw th. targetWidth = Fin (real tw) \<and> targetHeight = Fin (real th) \<and>
                   tw < 2 ^ 32 \<and> th < 2 ^ 32 \<longrightarrow>
             (\<forall>k < length fs. masked_of P rawFrames points sw sh tw th k (fst (fs ! k))))"
proof -
  from processGifRobust_Inr [OF assms] obtain st' where
    pf: "process_frames P rawFrames points targetWidth targetHeight
           (jdiv targetWidth (Fin (real sw))) (jdiv targetHeight (Fin (real sh)))
           currentSkip 0 (initial_gif_state sw sh targetWidth targetHeight) = Inr st'"
    and blob: "blob = encode P (gif_options_of quality targetWidth targetHeight) (gif_frames st')"
    by blast
  from process_frames_delays [OF pf [unfolded currentSkip_def]]
  have dl: "map snd (gif_frames st') = map delay rawFrames"
    by (simp add: initial_gif_state_def)
  then have len: "length (gif_frames st') = length rawFrames"
    by (metis length_map)
  have "masked_of P rawFrames points sw sh tw th k (fst (gif_frames st' ! k))"
    if t: "targetWidth = Fin (real tw)" "targetHeight = Fin (real th)" "tw < 2 ^ 32" "th < 2 ^ 32"
      and k: "k < length (gif_frames st')" for tw th k
  proof -
    from process_frames_inv [OF pf [unfolded t currentSkip_def] _ frames_inv_initial [OF t(3,4)]]
    have "frames_inv P rawFrames points sw sh tw th 1 (length rawFrames) st'" by simp
    with k show ?thesis unfolding frames_inv_def by auto
  qed
  with blob dl len show ?thesis by blast
qed

theorem one_frame_per_raw_frame_witness:
  "processGifRobust test_platform
      [solid_frame 255 0 0 2 2 0 0 100 0, solid_frame 0 0 255 1 1 1 0 40 0] (rect_polygon 2 2)
      2 2 (Fin 2) (Fin 2) currentSkip 10
     = Inr (test_blob [solid_frame 255 0 0 2 2 0 0 100 0, solid_frame 0 0 255 1 1 1 0 40 0]
              (rect_polygon 2 2) 2 2 (Fin 2) (Fin 2) 10) \<and>
   (\<exists>fs. test_blob [solid_frame 255 0 0 2 2 0 0 100 0, solid_frame 0 0 255 1 1 1 0 40 0]
            (rect_polygon 2 2) 2 2 (Fin 2) (Fin 2) 10
          = encode test_platform (gif_options_of 10 (Fin 2) (Fin 2)) fs \<and>
        length fs = 2 \<and> map snd fs = [100, 40] \<and>
        masked_of test_platform
          [solid_frame 255 0 0 2 2 0 0 100 0, solid_frame 0 0 255 1 1 1 0 40 0]
          (rect_polygon 2 2) 2 2 2 2 0 (fst (fs ! 0)) \<and>
        masked_of test_platform
          [solid_frame 255 0 0 2 2 0 0 100 0, solid_frame 0 0 255 1 1 1 0 40 0]
          (rect_polygon 2 2) 2 2 2 2 1 (fst (fs ! 1)))"
proof -
  let ?rf = "[solid_frame 255 0 0 2 2 0 0 100 0, solid_frame 0 0 255 1 1 1 0 40 0]"
  have "processGifRobust test_platform ?rf (rect_polygon 2 2)
        2 2 (Fin (real (2::nat))) (Fin (real (2::nat))) currentSkip 10
       = Inr (test_blob ?rf (rect_polygon 2 2) 2 2 (Fin (real (2::nat))) (Fin (real (2::nat))) 10)"
    by (rule test_process(1) [OF _ _ _ refl _ _ refl]) (simp_all add: wf_solid_frame)
  then have run: "processGifRobust test_platform ?rf (rect_polygon 2 2)
      2 2 (Fin 2) (Fin 2) currentSkip 10
     = Inr (test_blob ?rf (rect_polygon 2 2) 2 2 (Fin 2) (Fin 2) 10)"
    by simp
  from one_frame_per_raw_frame [OF run] obtain fs where fs:
    "test_blob ?rf (rect_polygon 2 2) 2 2 (Fin 2) (Fin 2) 10
       = encode test_platform (gif_options_of 10 (Fin 2) (Fin 2)) fs"
    "length fs = length ?rf" "map snd fs = map delay ?rf"
    "\<forall>tw th. Fin 2 = Fin (real tw) \<and> Fin 2 = Fin (real th) \<and> tw < 2 ^ 32 \<and> th < 2 ^ 32 \<longrightarrow>
       (\<forall>k < length fs. masked_of test_platform ?rf (rect_polygon 2 2) 2 2 tw th k (fst (fs ! k)))"
    by blast
  from fs(4) have "\<forall>k < length fs.
      masked_of test_platform ?rf (rect_polygon 2 2) 2 2 2 2 k (fst (fs ! k))"
    by (drule_tac x = 2 in spec, drule_tac x = 2 in spec) simp
  with fs(2) have "masked_of test_platform ?rf (rect_polygon 2 2) 2 2 2 2 0 (fst (fs ! 0))"
    "masked_of test_platform ?rf (rect_polygon 2 2) 2 2 2 2 1 (fst (fs ! 1))"
    by simp_all
  with fs(1,2,3) run show ?thesis
    by (intro conjI exI [where x = fs]) (simp_all add: solid_frame_def)
qed

text \<open>
  Claim C8: the encoder quality follows a fixed schedule keyed to the attempt number
  alone: 10 for the first attempt, 15 after attempt 1, 20 after attempt 2, and 30 after
  every later attempt. It holds whatever the platform and the encoder give, so it is
  never computed from the measured size.
\<close>

theorem quality_schedule_fixed:
  "\<exists>new. attempts (handleExport P d fr pts lfs mx st) = attempts st @ new
     \<and> map at_quality new = take (length new) [10, 15, 20, 30, 30]"
proof -
  from handleExport_log [of P d fr pts lfs mx st] obtain new where new:
    "attempts (handleExport P d fr pts lfs mx st) = attempts st @ new"
    "length new \<le> MAX_ATTEMPTS"
    "\<forall>w h. d = Some (w, h) \<longrightarrow> chain P mx (Fin (real w)) (Fin (real h)) 10 0 new"
    by blast
  have "map at_quality new = take (length new) [10, 15, 20, 30, 30]"
  proof (cases "new = []")
    case True
    then show ?thesis by simp
  next
    case False
    have "d \<noteq> None"
    proof
      assume "d = None"
      then have "attempts (handleExport P d fr pts lfs mx st) = attempts st"
        by (simp add: handleExport_def)
      with new(1) False show False by simp
    qed
    then obtain w h where "d = Some (w, h)" by auto
    with new(3) have ch: "chain P mx (Fin (real w)) (Fin (real h)) 10 0 new" by blast
    show ?thesis
    proof (rule nth_equalityI)
      show "length (map at_quality new) = length (take (length new) [10, 15, 20, 30, 30::nat])"
        using new(2) by (simp add: MAX_ATTEMPTS_def)
    next
      fix i assume "i < length (map at_quality new)"
      then have i: "i < length new" by simp
      with new(2) have i5: "i < 5" by (simp add: MAX_ATTEMPTS_def)
      from chain_quality [OF ch i] i i5
      show "map at_quality new ! i = take (length new) [10, 15, 20, 30, 30] ! i"
        by (auto simp add: nth_Cons' )
    qed
  qed
  with new(1) show ?thesis by blast
qed

theorem quality_schedule_fixed_witness:
  "map at_quality (attempts (handleExport test_platform (Some (40, 40)) (white_frames 40 40)
                     (rect_polygon 40 40) True (Fin (1 / 1000)) editing))
     = [10, 15, 20, 30, 30]"
proof -
  define st where "st = handleExport test_platform (Some (40, 40)) (white_frames 40 40)
              (rect_polygon 40 40) True (Fin (1 / 1000)) editing"
  from handleExport_gave_up(4) [of 40 40 st "rect_polygon 40 40"]
  have "map at_width (attempts st) = [Fin 40, Fin 32, Fin 32, Fin 32, Fin 32]"
    by (simp add: st_def)
  then have "length (map at_width (attempts st)) = 5" by simp
  then have len: "length (attempts st) = 5" by simp
  from quality_schedule_fixed [of test_platform "Some (40, 40)" "white_frames 40 40"
         "rect_polygon 40 40" True "Fin (1 / 1000)" editing]
  obtain new where
    "attempts st = attempts (editing :: (gif_options \<times> (bitmap \<times> int) list) app_state) @ new"
    "map at_quality new = take (length new) [10, 15, 20, 30, 30]"
    unfolding st_def by blast
  with len show ?thesis
    unfolding st_def [symmetric] by (simp add: editing_def)
qed

text \<open>
  Claim C9: the retry loop makes at most 5 attempts, for any input and any budget, and
  so always ends. The loop is a total function: its termination is proved with its
  definition, by the measure \<open>MAX_ATTEMPTS - attempt\<close>, each call of the encoder being
  taken to return.
\<close>

theorem export_attempts_bounded:
  "\<exists>new. attempts (handleExport P d fr pts lfs mx st) = attempts st @ new \<and> length new \<le> 5"
  using handleExport_log [of P d fr pts lfs mx st] by (auto simp add: MAX_ATTEMPTS_def)

theorem export_attempts_bounded_witness:
  "length (attempts (handleExport test_platform (Some (40, 40)) (white_frames 40 40)
                       (rect_polygon 40 40) True (Fin (1 / 1000)) editing)) \<le> 5"
  using export_attempts_bounded [of test_platform "Some (40, 40)" "white_frames 40 40"
          "rect_polygon 40 40" True "Fin (1 / 1000)" editing]
  by (auto simp add: editing_def)

text \<open>
  Claim C10: with an empty list of points the pipeline raises no error; the polygon's
  path is skipped, the clip is that of an empty path, and every pixel of every emitted
  frame is the substitution colour \<^verbatim>\<open>0x00FF00\<close>.
\<close>

theorem empty_polygon_all_chroma:
  assumes "fetch_worker P" "get_context P 0 sw sh"
    "get_context P 1 (to_uint32 (Fin (real tw))) (to_uint32 (Fin (real th)))"
    "get_context P 2 sw sh"
    and "\<forall>f \<in> set rawFrames. wf_frame f" "0 < sw" "0 < sh"
    and "0 < tw" "tw < 2 ^ 31" "0 < th" "th < 2 ^ 31"
  shows "cur_path (polygon_path [] c) = [] \<and>
         (\<exists>fs. processGifRobust P rawFrames [] sw sh (Fin (real tw)) (Fin (real th)) frameSkip quality
                 = Inr (encode P (gif_options_of quality (Fin (real tw)) (Fin (real th))) fs) \<and>
          (\<forall>k < length fs.
             bm_width (fst (fs ! k)) = tw \<and> bm_height (fst (fs ! k)) = th \<and>
             (\<forall>i < tw. \<forall>j < th.
                bm_pixels (fst (fs ! k)) i j = chroma_key \<and>
                rgb_hex (bm_pixels (fst (fs ! k)) i j) = CHROMA_KEY_COLOR_HEX)))"
proof -
  from processGifRobust_succeeds [OF assms(1-7) refl assms(8,9) refl assms(10,11)]
  obtain st' where
    run: "processGifRobust P rawFrames [] sw sh (Fin (real tw)) (Fin (real th)) frameSkip quality
            = Inr (encode P (gif_options_of quality (Fin (real tw)) (Fin (real th))) (gif_frames st'))"
    and pf: "process_frames P rawFrames [] (Fin (real tw)) (Fin (real th))
           (jdiv (Fin (real tw)) (Fin (real sw))) (jdiv (Fin (real th)) (Fin (real sh)))
           frameSkip 0 (initial_gif_state sw sh (Fin (real tw)) (Fin (real th))) = Inr st'"
    by blast
  have size: "tw < 2 ^ 32" "th < 2 ^ 32" using assms(9,11) by simp_all
  from process_frames_inv [OF pf _ frames_inv_initial [OF size]]
  have inv: "frames_inv P rawFrames [] sw sh tw th frameSkip (length rawFrames) st'" by simp
  have "bm_width (fst (gif_frames st' ! k)) = tw \<and> bm_height (fst (gif_frames st' ! k)) = th \<and>
        (\<forall>i < tw. \<forall>j < th.
                bm_pixels (fst (gif_frames st' ! k)) i j = chroma_key \<and>
                rgb_hex (bm_pixels (fst (gif_frames st' ! k)) i j) = CHROMA_KEY_COLOR_HEX)"
    if "k < length (gif_frames st')" for k
  proof -
    from inv that obtain full where
      m: "is_masked P (canvas_image full) [] sw sh tw th (fst (gif_frames st' ! k))"
      unfolding frames_inv_def masked_of_def by blast
    from is_masked_size [OF m] is_masked_empty [OF m] show ?thesis
      by (simp add: rgb_hex_chroma)
  qed
  moreover have "cur_path (polygon_path [] c) = []"
    by (simp add: polygon_path_eq)
  ultimately show ?thesis using run by blast
qed

theorem empty_polygon_all_chroma_witness:
  "wf_frame (solid_frame 255 0 0 2 2 0 0 100 0) \<and>
   cur_path (polygon_path [] (createCanvas 2 2)) = [] \<and>
   (\<exists>fs. processGifRobust test_platform [solid_frame 255 0 0 2 2 0 0 100 0] [] 2 2
            (Fin (real (2::nat))) (Fin (real (2::nat))) currentSkip 10
          = Inr (encode test_platform (gif_options_of 10 (Fin (real (2::nat))) (Fin (real (2::nat)))) fs) \<and>
        (\<forall>k < length fs.
           bm_width (fst (fs ! k)) = 2 \<and> bm_height (fst (fs ! k)) = 2 \<and>
           (\<forall>i < 2. \<forall>j < 2.
              bm_pixels (fst (fs ! k)) i j = chroma_key \<and>
              rgb_hex (bm_pixels (fst (fs ! k)) i j) = CHROMA_KEY_COLOR_HEX)))"
proof -
  have wf: "\<forall>f \<in> set [solid_frame 255 0 0 2 2 0 0 100 0]. wf_frame f"
    by (simp add: wf_solid_frame)
  have pos: "(0::nat) < 2" and size: "(2::nat) < 2 ^ 31" by simp_all
  have tp: "fetch_worker test_platform" "get_context test_platform 0 2 2"
    "get_context test_platform 1 (to_uint32 (Fin (real (2::nat)))) (to_uint32 (Fin (real (2::nat))))"
    "get_context test_platform 2 2 2"
    by (simp_all del: to_uint32.simps)
  from empty_polygon_all_chroma [OF tp wf pos pos pos size pos size,
         of "createCanvas 2 2" currentSkip 10] wf
  show ?thesis by simp
qed

end
